theory Spec2Isabelle
  imports Complex_Main "HOL-Library.Sublist"
begin

section \<open>Python values, exceptions and string formatting\<close>

text \<open>
  The values an \<open>entity_input\<close> can take. Python's \<open>bool\<close> is a subclass of \<open>int\<close>
  (\<open>isinstance(True, int)\<close> holds and \<open>True == 1\<close>), so it has a constructor of its own.
  \<open>PyNone\<close> and \<open>PyList\<close> stand for the values that are neither \<open>int\<close> nor \<open>str\<close>.
  Scores are Python floats; the code only compares and copies them, and they are modelled
  as reals.
\<close>

datatype py_value = PyInt int | PyBool bool | PyStr string | PyNone | PyList "py_value list"

datatype exn =
    ValueError string
  | TypeError string
  | KeyError string
  | IndexError string
  | ValidationError string
  | JSONDecodeError string
  | ResponseError string
  | OperationalError string
  | DataError string

definition digit_char :: "nat \<Rightarrow> char" where
  "digit_char d = ''0123456789'' ! d"

fun str_nat :: "nat \<Rightarrow> string" where
  "str_nat n = (if n < 10 then [digit_char n] else str_nat (n div 10) @ [digit_char (n mod 10)])"

declare str_nat.simps [simp del]

text \<open>\<open>str(i)\<close> for a Python integer: decimal digits, with a leading minus sign.\<close>

definition str_int :: "int \<Rightarrow> string" where
  "str_int i = (if i < 0 then CHR ''-'' # str_nat (nat (- i)) else str_nat (nat i))"

text \<open>How an f-string renders an integer-like value: \<open>True\<close> and \<open>False\<close> print by name.\<close>

definition str_bool :: "bool \<Rightarrow> string" where
  "str_bool b = (if b then ''True'' else ''False'')"

definition apostrophe :: char where
  "apostrophe = CHR 0x27"

section \<open>The TransH model wrapper (src/ml/model.py)\<close>

record triples_factory =
  entity_to_id :: "string \<rightharpoonup> int"
  entity_id_to_label :: "int \<rightharpoonup> string"

text \<open>
  The attributes of \<open>TransHModel\<close> that \<open>predict_similarity\<close> reads after \<open>load()\<close>.
  \<open>score_t\<close> is the trained model's scoring function (the oracle): for a head id and a
  relation index it returns one score per entity, in entity-index order.
\<close>

record transh_model =
  factory :: triples_factory
  heads_idx :: "int list"
  score_t :: "int \<Rightarrow> int \<Rightarrow> real list"

text \<open>
  Step 5 of \<open>load()\<close>: \<open>[entity_to_id[h] for h in heads]\<close>; a head missing from the
  table raises \<open>KeyError\<close>.
\<close>

fun load_heads_idx :: "triples_factory \<Rightarrow> string list \<Rightarrow> exn + int list" where
  "load_heads_idx tf [] = Inr []"
| "load_heads_idx tf (h # hs) =
     (case entity_to_id tf h of
        None \<Rightarrow> Inl (KeyError h)
      | Some i \<Rightarrow> (case load_heads_idx tf hs of Inl e \<Rightarrow> Inl e | Inr is \<Rightarrow> Inr (i # is)))"

definition msg_id_not_found :: "string \<Rightarrow> string" where
  "msg_id_not_found shown = ''ID '' @ [apostrophe] @ shown @ [apostrophe] @ '' not found in heads_idx.''"

definition msg_label_not_allowed :: "string \<Rightarrow> int \<Rightarrow> string" where
  "msg_label_not_allowed label e_id =
     ''Entity label '' @ [apostrophe] @ label @ [apostrophe] @ '' (ID '' @ str_int e_id
       @ '') not allowed (not in heads_idx).''"

definition msg_label_not_found :: "string \<Rightarrow> string" where
  "msg_label_not_found label =
     ''Entity label '' @ [apostrophe] @ label @ [apostrophe] @ '' not found in TriplesFactory.''"

definition msg_bad_type :: string where
  "msg_bad_type = ''entity_input must be an integer (ID) or a string (label).''"

text \<open>
  \<open>_validate_input\<close>. The \<open>isinstance(entity_input, int)\<close> branch also takes booleans,
  which compare equal to 0 and 1 in \<open>entity_input in self.heads_idx\<close>. The
  \<open>ValueError\<close> raised inside the \<open>try\<close> is not a \<open>KeyError\<close> and leaves the function.
\<close>

definition validate_input :: "transh_model \<Rightarrow> py_value \<Rightarrow> exn + int" where
  "validate_input m entity_input =
     (case entity_input of
        PyInt i \<Rightarrow>
          if i \<in> set (heads_idx m) then Inr i
          else Inl (ValueError (msg_id_not_found (str_int i)))
      | PyBool b \<Rightarrow>
          if of_bool b \<in> set (heads_idx m) then Inr (of_bool b)
          else Inl (ValueError (msg_id_not_found (str_bool b)))
      | PyStr label \<Rightarrow>
          (case entity_to_id (factory m) label of
             None \<Rightarrow> Inl (ValueError (msg_label_not_found label))
           | Some e_id \<Rightarrow>
               if e_id \<in> set (heads_idx m) then Inr e_id
               else Inl (ValueError (msg_label_not_allowed label e_id)))
      | _ \<Rightarrow> Inl (TypeError msg_bad_type))"

text \<open>
  \<open>_safe_resolve\<close>: \<open>self.heads_idx[index]\<close>, where a negative index counts from the
  end and an index out of range raises \<open>IndexError\<close>, turned into \<open>None\<close>.
\<close>

definition safe_resolve :: "transh_model \<Rightarrow> int \<Rightarrow> int option" where
  "safe_resolve m index =
     (let n = int (length (heads_idx m));
          j = (if index < 0 then n + index else index)
      in if 0 \<le> j \<and> j < n then Some (heads_idx m ! nat j) else None)"

text \<open>
  The inner loop of \<open>_extract_top_entities\<close> over one row of \<open>(idx, val)\<close> pairs. The
  boolean of the result tells whether the \<open>return results\<close> inside the loop was taken.
  \<open>entity_id_to_label[resolved_id]\<close> raises \<open>KeyError\<close> on a missing id.
\<close>

fun extract_row ::
  "transh_model \<Rightarrow> (int \<times> real) list \<Rightarrow> int \<Rightarrow> (string \<times> real) list
     \<Rightarrow> exn + (bool \<times> (string \<times> real) list)" where
  "extract_row m [] top_k results = Inr (False, results)"
| "extract_row m ((idx, val) # rest) top_k results =
     (case safe_resolve m idx of
        None \<Rightarrow> extract_row m rest top_k results
      | Some resolved_id \<Rightarrow>
          (case entity_id_to_label (factory m) resolved_id of
             None \<Rightarrow> Inl (KeyError (str_int resolved_id))
           | Some label \<Rightarrow>
               (let results' = results @ [(label, val)]
                in if int (length results') \<ge> top_k then Inr (True, results')
                   else extract_row m rest top_k results')))"

text \<open>The outer loop over the rows of the two tensors (the batch dimension).\<close>

fun extract_rows ::
  "transh_model \<Rightarrow> ((int \<times> real) list) list \<Rightarrow> int \<Rightarrow> (string \<times> real) list
     \<Rightarrow> exn + (string \<times> real) list" where
  "extract_rows m [] top_k results = Inr results"
| "extract_rows m (row # rows) top_k results =
     (case extract_row m row top_k results of
        Inl e \<Rightarrow> Inl e
      | Inr (returned, results') \<Rightarrow>
          if returned then Inr results' else extract_rows m rows top_k results')"

definition extract_top_entities ::
  "transh_model \<Rightarrow> real list list \<Rightarrow> int list list \<Rightarrow> int \<Rightarrow> exn + (string \<times> real) list" where
  "extract_top_entities m vals indices top_k =
     extract_rows m (map (\<lambda>(row_indices, row_values). zip row_indices row_values) (zip indices vals))
       top_k []"

text \<open>
  \<open>torch.topk(scores, k=scores.size(1), dim=1, largest=False)\<close> on the single row of
  scores: all the scores in ascending order, each with its position in the row. The
  library does not fix the order of equal scores; the model takes the stable one.
\<close>

definition topk_smallest :: "real list \<Rightarrow> real list \<times> int list" where
  "topk_smallest scores =
     (let ordered = sort_key snd (zip (map int [0..<length scores]) scores)
      in (map snd ordered, map fst ordered))"

text \<open>
  \<open>predict_similarity\<close>: a \<open>ValueError\<close> or \<open>TypeError\<close> of the validation is caught
  and returned as the one-element list \<open>[(str(e), -1.0)]\<close>.
\<close>

definition predict_similarity ::
  "transh_model \<Rightarrow> py_value \<Rightarrow> int \<Rightarrow> int \<Rightarrow> exn + (string \<times> real) list" where
  "predict_similarity m entity_input relation_idx top_k =
     (case validate_input m entity_input of
        Inl (ValueError msg) \<Rightarrow> Inr [(msg, - 1)]
      | Inl (TypeError msg) \<Rightarrow> Inr [(msg, - 1)]
      | Inl e \<Rightarrow> Inl e
      | Inr valid_id \<Rightarrow>
          (let scores = score_t m valid_id relation_idx;
               (vals, indices) = topk_smallest scores
           in extract_top_entities m [vals] [indices] top_k))"

section \<open>The Redis store (src/core/redis_client.py)\<close>

text \<open>
  The client is created with \<open>decode_responses=True\<close>: keys and values are strings. An
  entry may carry an expiry time (epoch seconds); an entry whose time has passed is gone
  for every command. Time is a parameter of each command that depends on it.
\<close>

record redis_entry =
  content :: string
  expires_at :: "real option"

type_synonym redis = "string \<rightharpoonup> redis_entry"

definition redis_live :: "real \<Rightarrow> redis \<Rightarrow> string \<Rightarrow> redis_entry option" where
  "redis_live now r k =
     (case r k of
        None \<Rightarrow> None
      | Some e \<Rightarrow>
          (case expires_at e of
             None \<Rightarrow> Some e
           | Some t \<Rightarrow> if t \<le> now then None else Some e))"

definition redis_get :: "real \<Rightarrow> redis \<Rightarrow> string \<Rightarrow> string option" where
  "redis_get now r k = map_option content (redis_live now r k)"

text \<open>\<open>SET\<close> replaces the value and discards any expiry.\<close>

definition redis_set :: "redis \<Rightarrow> string \<Rightarrow> string \<Rightarrow> redis" where
  "redis_set r k v = r(k \<mapsto> \<lparr>content = v, expires_at = None\<rparr>)"

definition digit_val :: "char \<Rightarrow> nat option" where
  "digit_val c = (if c \<in> set ''0123456789'' then Some (of_char c - 48) else None)"

fun parse_digits :: "nat \<Rightarrow> string \<Rightarrow> nat option" where
  "parse_digits acc [] = Some acc"
| "parse_digits acc (c # cs) =
     (case digit_val c of None \<Rightarrow> None | Some d \<Rightarrow> parse_digits (10 * acc + d) cs)"

text \<open>
  How \<open>INCR\<close> reads a stored value: a signed 64-bit integer in its canonical decimal
  form (no sign other than a leading minus, no leading zeros, no spaces).
\<close>

definition string2ll :: "string \<Rightarrow> int option" where
  "string2ll s =
     (let parsed =
        (case s of
           [] \<Rightarrow> None
         | c # cs \<Rightarrow>
             if c = CHR ''-'' then (if cs = [] then None else map_option (\<lambda>n. - int n) (parse_digits 0 cs))
             else map_option int (parse_digits 0 s))
      in case parsed of
           None \<Rightarrow> None
         | Some n \<Rightarrow>
             if str_int n = s \<and> - (2 ^ 63) \<le> n \<and> n < 2 ^ 63 then Some n else None)"

text \<open>
  \<open>INCR\<close>: a missing key counts as 0; a value that is not an integer, or the largest
  one, is an error and the store is left as it is. The expiry of the entry is kept.
\<close>

definition redis_incr :: "real \<Rightarrow> redis \<Rightarrow> string \<Rightarrow> exn + (int \<times> redis)" where
  "redis_incr now r k =
     (case redis_live now r k of
        None \<Rightarrow> Inr (1, r(k \<mapsto> \<lparr>content = str_int 1, expires_at = None\<rparr>))
      | Some e \<Rightarrow>
          (case string2ll (content e) of
             None \<Rightarrow> Inl (ResponseError ''value is not an integer or out of range'')
           | Some n \<Rightarrow>
               if n = 2 ^ 63 - 1 then Inl (ResponseError ''increment or decrement would overflow'')
               else Inr (n + 1, r(k \<mapsto> e\<lparr>content := str_int (n + 1)\<rparr>))))"

definition redis_expire :: "real \<Rightarrow> redis \<Rightarrow> string \<Rightarrow> real \<Rightarrow> redis" where
  "redis_expire now r k seconds =
     (case redis_live now r k of
        None \<Rightarrow> r
      | Some e \<Rightarrow> r(k \<mapsto> e\<lparr>expires_at := Some (now + seconds)\<rparr>))"

text \<open>
  How redis-py encodes a key: a string as it is, an integer by its decimal digits;
  booleans, \<open>None\<close> and lists are refused with \<open>DataError\<close>.
\<close>

definition encode_key :: "py_value \<Rightarrow> exn + string" where
  "encode_key v =
     (case v of
        PyStr s \<Rightarrow> Inr s
      | PyInt i \<Rightarrow> Inr (str_int i)
      | _ \<Rightarrow> Inl (DataError ''Invalid input type''))"

text \<open>
  The two library functions around the cached text that the repository does not define:
  \<open>json.loads\<close>, and the validation of the \<open>result\<close> field by the response model
  (\<open>List[Tuple[str, float]]\<close>). \<open>json.dumps\<close> of a list of pairs is written out; how
  it prints a string and a float is left to the library.
\<close>

record 'j json_lib =
  dumps_str :: "string \<Rightarrow> string"
  float_repr :: "real \<Rightarrow> string"
  json_loads :: "string \<Rightarrow> exn + 'j"
  validate_result :: "'j \<Rightarrow> exn + (string \<times> real) list"

fun join_comma :: "string list \<Rightarrow> string" where
  "join_comma [] = []"
| "join_comma [x] = x"
| "join_comma (x # y # ys) = x @ '', '' @ join_comma (y # ys)"

definition json_dumps :: "'j json_lib \<Rightarrow> (string \<times> real) list \<Rightarrow> string" where
  "json_dumps J results =
     ''['' @ join_comma (map (\<lambda>(label, score).
                ''['' @ dumps_str J label @ '', '' @ float_repr J score @ '']'') results) @ '']''"

text \<open>
  \<open>get_cached_results\<close>: \<open>None\<close> when the key is missing or its value is the empty
  string, else the dictionary with the decoded value (here: the decoded value).
\<close>

definition get_cached_results ::
  "'j json_lib \<Rightarrow> real \<Rightarrow> redis \<Rightarrow> py_value \<Rightarrow> exn + 'j option" where
  "get_cached_results J now r key =
     (case encode_key key of
        Inl e \<Rightarrow> Inl e
      | Inr k \<Rightarrow>
          (case redis_get now r k of
             None \<Rightarrow> Inr None
           | Some cached_data \<Rightarrow>
               if cached_data \<noteq> [] then
                 (case json_loads J cached_data of Inl e \<Rightarrow> Inl e | Inr v \<Rightarrow> Inr (Some v))
               else Inr None))"

definition set_cached_results ::
  "'j json_lib \<Rightarrow> redis \<Rightarrow> py_value \<Rightarrow> (string \<times> real) list \<Rightarrow> exn + redis" where
  "set_cached_results J r key results =
     (let json_results = json_dumps J results
      in case encode_key key of
           Inl e \<Rightarrow> Inl e
         | Inr k \<Rightarrow> Inr (redis_set r k json_results))"

section \<open>The similarity route (src/api/routes/service.py)\<close>

text \<open>
  What a request handler can end with besides its response: an \<open>HTTPException\<close> it
  raises itself (status code and detail), or an exception nothing catches, which the
  framework turns into a 500 response.
\<close>

datatype failure = HTTPException nat string | Unhandled exn

subsection \<open>Token verification (\<open>jwt.decode\<close> of PyJWT)\<close>

text \<open>
  The library is not part of the repository. Its \<open>decode\<close> is modelled in the order in
  which it works: the token is split into its segments and these are decoded; the
  \<open>alg\<close> of the header must be one of the \<open>algorithms\<close> given; the key is prepared; the
  signature over the signing input is compared with the HMAC under the key; the payload
  is parsed; last, the claims are validated, of which the tokens of this service carry
  \<open>exp\<close>. The segment decoding and the HMAC itself are parameters.
\<close>

record jwt_claims =
  sub_claim :: "string option"
  exp_claim :: "int option"

record jwt_segments =
  alg :: "string option"
  signing_input :: string
  signature :: string
  payload :: "jwt_claims option"

record jwt_lib =
  jwt_load :: "string \<Rightarrow> jwt_segments option"
  hmac_sha256 :: "string \<Rightarrow> string \<Rightarrow> string"

text \<open>
  The exceptions of \<open>jwt.decode\<close>. All but \<open>KeyTypeError\<close> (the \<open>TypeError\<close> raised for
  a key that is \<open>None\<close>) are subclasses of \<open>InvalidTokenError\<close>, \<open>ExpiredSignatureError\<close>
  included.
\<close>

datatype jwt_error =
    DecodeError
  | InvalidAlgorithmError
  | InvalidSignatureError
  | ExpiredSignatureError
  | KeyTypeError

definition jwt_decode ::
  "jwt_lib \<Rightarrow> real \<Rightarrow> string \<Rightarrow> string option \<Rightarrow> string list \<Rightarrow> jwt_error + jwt_claims" where
  "jwt_decode W now token key algorithms =
     (case jwt_load W token of
        None \<Rightarrow> Inl DecodeError
      | Some segs \<Rightarrow>
          (case alg segs of
             None \<Rightarrow> Inl InvalidAlgorithmError
           | Some a \<Rightarrow>
               if a \<notin> set algorithms then Inl InvalidAlgorithmError
               else
                 (case key of
                    None \<Rightarrow> Inl KeyTypeError
                  | Some k \<Rightarrow>
                      if hmac_sha256 W k (signing_input segs) \<noteq> signature segs
                      then Inl InvalidSignatureError
                      else
                        (case payload segs of
                           None \<Rightarrow> Inl DecodeError
                         | Some claims \<Rightarrow>
                             (case exp_claim claims of
                                None \<Rightarrow> Inr claims
                              | Some e \<Rightarrow>
                                  if real_of_int e \<le> now then Inl ExpiredSignatureError
                                  else Inr claims)))))"

text \<open>\<open>s.split(" ")\<close>: the pieces between single spaces, empty pieces included.\<close>

fun split_on :: "char \<Rightarrow> string \<Rightarrow> string list" where
  "split_on c [] = [[]]"
| "split_on c (x # xs) =
     (if x = c then [] # split_on c xs
      else (case split_on c xs of
              [] \<Rightarrow> [[x]]
            | p # ps \<Rightarrow> (x # p) # ps))"

text \<open>
  The first step of \<open>similarity_service\<close>: the \<open>Authorization\<close> header, the token after
  the first space, and \<open>jwt.decode\<close> under the two \<open>except\<close> clauses, of which the one
  for \<open>ExpiredSignatureError\<close> comes first. The decoded claims are not used.
\<close>

definition validate_jwt ::
  "jwt_lib \<Rightarrow> string option \<Rightarrow> real \<Rightarrow> string option \<Rightarrow> failure + unit" where
  "validate_jwt W secret_key now token_header =
     (case token_header of
        None \<Rightarrow> Inl (HTTPException 401 ''JWT Token not provided.'')
      | Some h \<Rightarrow>
          if h = [] \<or> \<not> prefix ''Bearer '' h
          then Inl (HTTPException 401 ''JWT Token not provided.'')
          else
            (case split_on CHR '' '' h of
               _ # token # _ \<Rightarrow>
                 (case jwt_decode W now token secret_key [''HS256''] of
                    Inr claims \<Rightarrow> Inr ()
                  | Inl ExpiredSignatureError \<Rightarrow> Inl (HTTPException 401 ''JWT Token has expired.'')
                  | Inl KeyTypeError \<Rightarrow> Inl (Unhandled (TypeError ''Expected a string value''))
                  | Inl _ \<Rightarrow> Inl (HTTPException 401 ''Invalid JWT Token.''))
             | _ \<Rightarrow> Inl (Unhandled (IndexError ''list index out of range''))))"

subsection \<open>API keys and the rate limit\<close>

text \<open>A row of the table \<open>api_keys\<close> of PostgreSQL, as the code writes and reads it.\<close>

record api_key_row =
  api_key :: string
  user_email :: string
  account_type :: string

text \<open>\<open>get_api_key_info\<close>: the first row the query selects, if any.\<close>

definition get_api_key_info :: "api_key_row list \<Rightarrow> string \<Rightarrow> api_key_row option" where
  "get_api_key_info rows k = find (\<lambda>row. api_key row = k) rows"

definition validate_api_key :: "api_key_row list \<Rightarrow> string \<Rightarrow> failure + api_key_row" where
  "validate_api_key rows k =
     (if k = [] then Inl (HTTPException 401 ''API Key not provided.'')
      else
        (case get_api_key_info rows k of
           None \<Rightarrow> Inl (HTTPException 401 ''Invalid API Key.'')
         | Some database_info \<Rightarrow>
             if api_key database_info \<noteq> k then Inl (HTTPException 401 ''Invalid API Key.'')
             else Inr database_info))"

text \<open>\<open>RATE_LIMITS.get(account_type, RATE_LIMITS["FREEMIUM"])\<close>.\<close>

definition rate_limit :: "string \<Rightarrow> int" where
  "rate_limit tier =
     (if tier = ''FREEMIUM'' then 5 else if tier = ''PREMIUM'' then 50 else 5)"

text \<open>\<open>int(time.time() // 60)\<close> and the key \<open>usage:<api_key>:<current_minute>\<close>.\<close>

definition current_minute :: "real \<Rightarrow> int" where
  "current_minute now = \<lfloor>now / 60\<rfloor>"

definition usage_key :: "string \<Rightarrow> int \<Rightarrow> string" where
  "usage_key k minute = ''usage:'' @ k @ '':'' @ str_int minute"

definition too_many_requests :: failure where
  "too_many_requests = HTTPException 429 ''Rate limit exceeded. Please try again later.''"

text \<open>
  \<open>_check_rate_limit\<close>: the counter is incremented, given an expiry of 60 seconds when
  it has just become 1, and compared with the limit. The store keeps the increment
  also when the request is refused.
\<close>

definition check_rate_limit ::
  "real \<Rightarrow> redis \<Rightarrow> string \<Rightarrow> string \<Rightarrow> (failure + unit) \<times> redis" where
  "check_rate_limit now r k tier =
     (let redis_key = usage_key k (current_minute now)
      in case redis_incr now r redis_key of
           Inl e \<Rightarrow> (Inl (Unhandled e), r)
         | Inr (usage_count, r1) \<Rightarrow>
             (let r2 = (if usage_count = 1 then redis_expire now r1 redis_key 60 else r1);
                  limit = rate_limit tier
              in if usage_count > limit then (Inl too_many_requests, r2) else (Inr (), r2)))"

subsection \<open>The handler\<close>

record similarity_request =
  authorization :: "string option"
  req_api_key :: string
  req_entity_input :: py_value

record similarity_response =
  cache :: bool
  result :: "(string \<times> real) list"

text \<open>
  The steps of \<open>similarity_service\<close> before the cache is read: token, API key, rate
  limit. Only the rate limit writes to the store.
\<close>

definition admission ::
  "jwt_lib \<Rightarrow> string option \<Rightarrow> api_key_row list \<Rightarrow> real \<Rightarrow> redis \<Rightarrow> similarity_request
     \<Rightarrow> (failure + unit) \<times> redis" where
  "admission W secret_key rows now r req =
     (case validate_jwt W secret_key now (authorization req) of
        Inl f \<Rightarrow> (Inl f, r)
      | Inr _ \<Rightarrow>
          (case validate_api_key rows (req_api_key req) of
             Inl f \<Rightarrow> (Inl f, r)
           | Inr database_info \<Rightarrow>
               check_rate_limit now r (req_api_key req) (account_type database_info)))"

text \<open>
  The steps after admission: a value found in the cache is returned through the
  response model with \<open>cache=True\<close>; otherwise the model is run with its default
  \<open>relation_idx = 5\<close> and \<open>top_k = 10\<close>, its result stored and returned.
\<close>

definition cached_or_ranked ::
  "'j json_lib \<Rightarrow> transh_model \<Rightarrow> real \<Rightarrow> redis \<Rightarrow> similarity_request
     \<Rightarrow> (failure + similarity_response) \<times> redis" where
  "cached_or_ranked J m now r req =
     (case get_cached_results J now r (req_entity_input req) of
        Inl e \<Rightarrow> (Inl (Unhandled e), r)
      | Inr (Some cached_response) \<Rightarrow>
          (case validate_result J cached_response of
             Inl e \<Rightarrow> (Inl (Unhandled e), r)
           | Inr res \<Rightarrow> (Inr \<lparr>cache = True, result = res\<rparr>, r))
      | Inr None \<Rightarrow>
          (case predict_similarity m (req_entity_input req) 5 10 of
             Inl e \<Rightarrow> (Inl (Unhandled e), r)
           | Inr probability \<Rightarrow>
               (case set_cached_results J r (req_entity_input req) probability of
                  Inl e \<Rightarrow> (Inl (Unhandled e), r)
                | Inr r' \<Rightarrow> (Inr \<lparr>cache = False, result = probability\<rparr>, r'))))"

definition similarity_service ::
  "jwt_lib \<Rightarrow> 'j json_lib \<Rightarrow> transh_model \<Rightarrow> string option \<Rightarrow> api_key_row list \<Rightarrow> real
     \<Rightarrow> redis \<Rightarrow> similarity_request \<Rightarrow> (failure + similarity_response) \<times> redis" where
  "similarity_service W J m secret_key rows now r req =
     (case admission W secret_key rows now r req of
        (Inl f, r1) \<Rightarrow> (Inl f, r1)
      | (Inr _, r1) \<Rightarrow> cached_or_ranked J m now r1 req)"

section \<open>Registration (src/api/routes/session.py, src/core/database.py)\<close>

text \<open>A document of the collection \<open>users\<close> of MongoDB.\<close>

record user_doc =
  email :: string
  password :: string

record databases =
  users :: "user_doc list"
  api_keys :: "api_key_row list"

text \<open>
  What the surroundings decide in one call of \<open>register_user\<close>: whether a MongoDB or
  PostgreSQL operation raises, the salt of the password hash and the value of
  \<open>secrets.token_hex(API_KEY_LENGTH)\<close>.
\<close>

datatype mongo_fault = MongoOk | FindOneRaises | InsertOneRaises

record call_env =
  mongo :: mongo_fault
  postgres_raises :: bool
  salt :: string
  token_hex :: string

text \<open>\<open>collection.find_one({"email": email})\<close>.\<close>

definition find_one :: "user_doc list \<Rightarrow> string \<Rightarrow> user_doc option" where
  "find_one docs e = find (\<lambda>d. email d = e) docs"

text \<open>
  \<open>create_user_in_db\<close>: \<open>False\<close> when the user exists, and also when \<open>find_one\<close> or
  \<open>insert_one\<close> raises; then nothing has been inserted.
\<close>

definition create_user_in_db :: "call_env \<Rightarrow> databases \<Rightarrow> string \<Rightarrow> string \<Rightarrow> bool \<times> databases" where
  "create_user_in_db env db e pw =
     (if mongo env = FindOneRaises then (False, db)
      else
        (case find_one (users db) e of
           Some existing_user \<Rightarrow> (False, db)
         | None \<Rightarrow>
             if mongo env = InsertOneRaises then (False, db)
             else (True, db\<lparr>users := users db @ [\<lparr>email = e, password = pw\<rparr>]\<rparr>)))"

text \<open>\<open>CONDITION in user_email\<close>: the substring test on the address.\<close>

definition condition :: string where
  "condition = ''gmail.com''"

fun contains :: "string \<Rightarrow> string \<Rightarrow> bool" where
  "contains needle [] = (needle = [])"
| "contains needle (c # cs) = (prefix needle (c # cs) \<or> contains needle cs)"

text \<open>
  \<open>insert_api_key_in_db\<close>: the pair of the new key and the account type, or the empty
  string (here \<open>None\<close>) when the connection or the \<open>INSERT\<close> raises; the transaction
  is then rolled back.
\<close>

definition insert_api_key_in_db ::
  "call_env \<Rightarrow> databases \<Rightarrow> string \<Rightarrow> (string \<times> string) option \<times> databases" where
  "insert_api_key_in_db env db e =
     (let new_api_key = token_hex env
      in if postgres_raises env then (None, db)
         else
           (let tier = (if contains condition e then ''PREMIUM'' else ''FREEMIUM'')
            in (Some (new_api_key, tier),
                db\<lparr>api_keys := api_keys db
                      @ [\<lparr>api_key = new_api_key, user_email = e, account_type = tier\<rparr>]\<rparr>)))"

record register_request =
  req_email :: string
  req_password :: string

record api_key_response =
  resp_api_key :: "string option"
  resp_token :: "string option"
  resp_message :: "string option"
  resp_account_type :: "string option"

definition registered_message :: string where
  "registered_message =
     ''User registered successfully. Copy your API Key and keep it safe! IT WON'' @ [apostrophe]
       @ ''T BE SHOWN AGAIN.''"

text \<open>
  \<open>register_user\<close>. \<open>pwd_hash\<close> is the bcrypt hash of passlib, with the salt it draws.
  Indexing the empty string that \<open>insert_api_key_in_db\<close> returns on failure raises
  \<open>IndexError\<close>, which nothing catches.
\<close>

definition register_user ::
  "(string \<Rightarrow> string \<Rightarrow> string) \<Rightarrow> call_env \<Rightarrow> databases \<Rightarrow> register_request
     \<Rightarrow> (failure + api_key_response) \<times> databases" where
  "register_user pwd_hash env db req_data =
     (let hashed_pw = pwd_hash (salt env) (req_password req_data);
          (created, db1) = create_user_in_db env db (req_email req_data) hashed_pw
      in if \<not> created
         then (Inl (HTTPException 400 ''User already exists or error creating user.''), db1)
         else
           (case insert_api_key_in_db env db1 (req_email req_data) of
              (None, db2) \<Rightarrow> (Inl (Unhandled (IndexError ''string index out of range'')), db2)
            | (Some (k, tier), db2) \<Rightarrow>
                (Inr \<lparr>resp_api_key = Some k, resp_token = None,
                      resp_message = Some registered_message,
                      resp_account_type = Some tier\<rparr>, db2)))"

section \<open>Notions used to state the properties\<close>

subsection \<open>Ranking and validation\<close>

text \<open>
  The \<open>(idx, val)\<close> pairs that \<open>predict_similarity\<close> hands to \<open>_extract_top_entities\<close>
  for a validated id: positions and scores in ascending score order.
\<close>

definition ranked_row :: "transh_model \<Rightarrow> int \<Rightarrow> int \<Rightarrow> (int \<times> real) list" where
  "ranked_row m valid_id relation_idx =
     (let (vals, indices) = topk_smallest (score_t m valid_id relation_idx) in zip indices vals)"

text \<open>
  The candidate-set projection of a row: the positions that \<open>_safe_resolve\<close> accepts, each
  replaced by the entity id found in \<open>heads_idx\<close>, in the order of the row. Its length is
  the number of valid results the projection produces.
\<close>

definition resolved_entries :: "transh_model \<Rightarrow> (int \<times> real) list \<Rightarrow> (int \<times> real) list" where
  "resolved_entries m row =
     List.map_filter (\<lambda>(idx, val). map_option (\<lambda>r. (r, val)) (safe_resolve m idx)) row"

text \<open>An output pair carries the label of the entity of a projected entry, and its score.\<close>

definition labelled :: "transh_model \<Rightarrow> (string \<times> real) \<Rightarrow> (int \<times> real) \<Rightarrow> bool" where
  "labelled m out entry \<longleftrightarrow>
     entity_id_to_label (factory m) (fst entry) = Some (fst out) \<and> snd out = snd entry"

text \<open>
  The validation contract in the specification's words, with its three failure kinds. An
  integer input is a Python \<open>int\<close>, booleans included; a label is a \<open>str\<close>.
\<close>

datatype entity_validation_failure = UnknownEntityLabel | EntityNotAllowed | InvalidEntityInputType

definition as_integer :: "py_value \<Rightarrow> int option" where
  "as_integer v = (case v of PyInt i \<Rightarrow> Some i | PyBool b \<Rightarrow> Some (of_bool b) | _ \<Rightarrow> None)"

definition as_label :: "py_value \<Rightarrow> string option" where
  "as_label v = (case v of PyStr s \<Rightarrow> Some s | _ \<Rightarrow> None)"

definition spec_validate :: "transh_model \<Rightarrow> py_value \<Rightarrow> entity_validation_failure + int" where
  "spec_validate m v =
     (case as_integer v of
        Some i \<Rightarrow> if i \<in> set (heads_idx m) then Inr i else Inl EntityNotAllowed
      | None \<Rightarrow>
          (case as_label v of
             Some label \<Rightarrow>
               (case entity_to_id (factory m) label of
                  None \<Rightarrow> Inl UnknownEntityLabel
                | Some e_id \<Rightarrow> if e_id \<in> set (heads_idx m) then Inr e_id else Inl EntityNotAllowed)
           | None \<Rightarrow> Inl InvalidEntityInputType))"

text \<open>
  What a caller of \<open>_validate_input\<close> can tell from the exception alone: its class, and
  for a \<open>ValueError\<close> the end of its message.
\<close>

definition failure_kind :: "exn \<Rightarrow> entity_validation_failure option" where
  "failure_kind e =
     (case e of
        TypeError msg \<Rightarrow> Some InvalidEntityInputType
      | ValueError msg \<Rightarrow>
          if suffix '' not found in TriplesFactory.'' msg then Some UnknownEntityLabel
          else Some EntityNotAllowed
      | _ \<Rightarrow> None)"

subsection \<open>Sequences of calls\<close>

text \<open>
  Consecutive calls of \<open>_check_rate_limit\<close> for one API key, one at each of the given
  times, with the outcome of each.
\<close>

fun rate_limit_run ::
  "redis \<Rightarrow> string \<Rightarrow> string \<Rightarrow> real list \<Rightarrow> (failure + unit) list \<times> redis" where
  "rate_limit_run r k tier [] = ([], r)"
| "rate_limit_run r k tier (t # ts) =
     (case check_rate_limit t r k tier of
        (outcome, r1) \<Rightarrow>
          (case rate_limit_run r1 k tier ts of
             (outcomes, r2) \<Rightarrow> (outcome # outcomes, r2)))"

text \<open>
  The counter of a window with \<open>c\<close> requests counted: missing when there were none,
  else the decimal of \<open>c\<close> with an expiry that is not before the end of the window.
\<close>

definition counter_at :: "redis \<Rightarrow> string \<Rightarrow> int \<Rightarrow> int \<Rightarrow> bool" where
  "counter_at r key c w \<longleftrightarrow>
     (c = 0 \<and> r key = None)
     \<or> (0 < c \<and> (\<exists>e. r key = Some \<lparr>content = str_int c, expires_at = Some e\<rparr>
                     \<and> 60 * (real_of_int w + 1) \<le> e))"

text \<open>Registration calls one after the other, each with what its surroundings decide.\<close>

fun register_all ::
  "(string \<Rightarrow> string \<Rightarrow> string) \<Rightarrow> databases \<Rightarrow> (call_env \<times> register_request) list
     \<Rightarrow> databases" where
  "register_all pwd_hash db [] = db"
| "register_all pwd_hash db ((env, req_data) # calls) =
     register_all pwd_hash (snd (register_user pwd_hash env db req_data)) calls"

definition user_exists_error :: failure where
  "user_exists_error = HTTPException 400 ''User already exists or error creating user.''"

subsection \<open>Tokens and cache entries\<close>

text \<open>The token that \<open>similarity_service\<close> takes from an \<open>Authorization\<close> header.\<close>

definition bearer_token :: "string \<Rightarrow> string option" where
  "bearer_token h = (case split_on CHR '' '' h of _ # token # _ \<Rightarrow> Some token | _ \<Rightarrow> None)"

text \<open>
  The signature of a token verifies against a secret: the token has its segments, names
  the algorithm HS256, and its signature is the HMAC of its signing input under the secret.
\<close>

definition signature_verifies :: "jwt_lib \<Rightarrow> string \<Rightarrow> string \<Rightarrow> bool" where
  "signature_verifies W secret token =
     (case jwt_load W token of
        None \<Rightarrow> False
      | Some segs \<Rightarrow>
          alg segs = Some ''HS256'' \<and> hmac_sha256 W secret (signing_input segs) = signature segs)"

text \<open>
  What a cache hit makes of a stored text: \<open>json.loads\<close>, then the validation of the
  response model.
\<close>

definition decode_cached :: "'j json_lib \<Rightarrow> string \<Rightarrow> exn + (string \<times> real) list" where
  "decode_cached J s = (case json_loads J s of Inl e \<Rightarrow> Inl e | Inr v \<Rightarrow> validate_result J v)"

text \<open>
  The two kinds of entries the service writes: counters of the rate limiter (the decimal
  of an integer) and cached results (a JSON array, without expiry).
\<close>

definition is_counter :: "redis_entry \<Rightarrow> bool" where
  "is_counter e \<longleftrightarrow> (\<exists>n. content e = str_int n)"

definition is_cache_entry :: "redis_entry \<Rightarrow> bool" where
  "is_cache_entry e \<longleftrightarrow> expires_at e = None \<and> content e \<noteq> [] \<and> hd (content e) = CHR ''[''"

definition store_wf :: "redis \<Rightarrow> bool" where
  "store_wf r \<longleftrightarrow> (\<forall>k e. r k = Some e \<longrightarrow> is_counter e \<or> is_cache_entry e)"

text \<open>Service calls one after the other, each at its time; the store they leave.\<close>

fun service_all ::
  "jwt_lib \<Rightarrow> 'j json_lib \<Rightarrow> transh_model \<Rightarrow> string option \<Rightarrow> api_key_row list \<Rightarrow> redis
     \<Rightarrow> (real \<times> similarity_request) list \<Rightarrow> redis" where
  "service_all W J m secret_key rows r [] = r"
| "service_all W J m secret_key rows r ((now, req) # calls) =
     service_all W J m secret_key rows
       (snd (similarity_service W J m secret_key rows now r req)) calls"

section \<open>A small loaded model\<close>

text \<open>
  Three entities, of which \<open>site_c\<close> and \<open>site_a\<close> are heads; the scoring function gives
  the same three scores for every query.
\<close>

definition example_factory :: triples_factory where
  "example_factory =
     \<lparr>entity_to_id = [''site_a'' \<mapsto> 0, ''site_b'' \<mapsto> 1, ''site_c'' \<mapsto> 2],
      entity_id_to_label = [0 \<mapsto> ''site_a'', 1 \<mapsto> ''site_b'', 2 \<mapsto> ''site_c'']\<rparr>"

definition example_model :: transh_model where
  "example_model =
     \<lparr>factory = example_factory, heads_idx = [2, 0],
      score_t = (\<lambda>h r. [3 / 10, 1 / 10, 2 / 10])\<rparr>"

section \<open>A registration scenario\<close>

text \<open>
  Stand-ins for the password hash and for what the surroundings decide, and the
  databases before and after Alice registers, with and without a PostgreSQL failure.
\<close>

definition example_hash :: "string \<Rightarrow> string \<Rightarrow> string" where
  "example_hash s pw = ''$2b$'' @ s @ ''$'' @ rev pw"

definition example_env :: call_env where
  "example_env = \<lparr>mongo = MongoOk, postgres_raises = False, salt = ''s1'',
                   token_hex = ''00112233445566778899aabbccddeeff''\<rparr>"

definition failing_env :: call_env where
  "failing_env = \<lparr>mongo = MongoOk, postgres_raises = True, salt = ''s2'',
                   token_hex = ''ffeeddccbbaa99887766554433221100''\<rparr>"

definition empty_databases :: databases where
  "empty_databases = \<lparr>users = [], api_keys = []\<rparr>"

definition alice_registered :: databases where
  "alice_registered =
     \<lparr>users = [\<lparr>email = ''alice@example.com'', password = ''$2b$s1$1terces''\<rparr>],
      api_keys = [\<lparr>api_key = ''00112233445566778899aabbccddeeff'',
                   user_email = ''alice@example.com'', account_type = ''FREEMIUM''\<rparr>]\<rparr>"

definition alice_without_key :: databases where
  "alice_without_key =
     \<lparr>users = [\<lparr>email = ''alice@example.com'', password = ''$2b$s2$1terces''\<rparr>], api_keys = []\<rparr>"

section \<open>A service scenario\<close>

text \<open>
  Stand-ins for the two libraries. The token \<open>good\<close> is signed under the secret
  \<open>topsecret\<close>; the token \<open>tampered\<close> has the same segments with another signature;
  both claim an expiry far in the future. The JSON reader knows the two texts that the
  scenario stores.
\<close>

definition example_segments :: "string \<Rightarrow> jwt_segments" where
  "example_segments sig =
     \<lparr>alg = Some ''HS256'', signing_input = ''hdr.body'', signature = sig,
      payload = Some \<lparr>sub_claim = Some ''alice@example.com'', exp_claim = Some 2000000000\<rparr>\<rparr>"

definition example_jwt :: jwt_lib where
  "example_jwt =
     \<lparr>jwt_load = (\<lambda>s. if s = ''good'' then Some (example_segments ''topsecret|hdr.body'')
                       else if s = ''tampered'' then Some (example_segments ''forged'')
                       else None),
      hmac_sha256 = (\<lambda>k msg. k @ ''|'' @ msg)\<rparr>"

definition ranked_text :: string where
  "ranked_text = ''[[site_a, 0.1], [site_c, 0.3]]''"

definition sentinel_text :: string where
  "sentinel_text = ''[[ID '' @ [apostrophe] @ ''7'' @ [apostrophe] @ '' not found in heads_idx., -1.0]]''"

definition example_json :: "((string \<times> real) list) json_lib" where
  "example_json =
     \<lparr>dumps_str = (\<lambda>s. s),
      float_repr = (\<lambda>x. if x = - 1 then ''-1.0'' else if x = 1 / 10 then ''0.1''
                         else if x = 3 / 10 then ''0.3'' else ''0.0''),
      json_loads = (\<lambda>s. if s = ranked_text then Inr [(''site_a'', 1 / 10), (''site_c'', 3 / 10)]
                         else if s = sentinel_text
                         then Inr [(''ID '' @ [apostrophe] @ ''7'' @ [apostrophe] @ '' not found in heads_idx.'', - 1)]
                         else Inl (JSONDecodeError ''Expecting value'')),
      validate_result = Inr\<rparr>"

definition example_rows :: "api_key_row list" where
  "example_rows = [\<lparr>api_key = ''key1'', user_email = ''alice@example.com'', account_type = ''FREEMIUM''\<rparr>]"

definition example_request :: "string \<Rightarrow> py_value \<Rightarrow> similarity_request" where
  "example_request token v =
     \<lparr>authorization = Some (''Bearer '' @ token), req_api_key = ''key1'', req_entity_input = v\<rparr>"

text \<open>The counter of the scenario's window, created at the first request.\<close>

definition example_counter :: "int \<Rightarrow> redis_entry" where
  "example_counter c = \<lparr>content = str_int c, expires_at = Some (1700000000 + 60)\<rparr>"

section \<open>Properties of the ranking\<close>

subsection \<open>The loop of \<open>_extract_top_entities\<close>\<close>

lemma resolved_entries_Nil [simp]: "resolved_entries m [] = []"
  by (simp add: resolved_entries_def map_filter_simps)

lemma resolved_entries_Cons:
  "resolved_entries m ((idx, val) # rest) =
     (case safe_resolve m idx of None \<Rightarrow> resolved_entries m rest
      | Some r \<Rightarrow> (r, val) # resolved_entries m rest)"
  by (simp add: resolved_entries_def map_filter_simps split: option.splits)

lemma safe_resolve_in_heads: "safe_resolve m idx = Some h \<Longrightarrow> h \<in> set (heads_idx m)"
  by (auto simp: safe_resolve_def Let_def split: if_splits)

lemma resolved_entries_in_heads: "(h, s) \<in> set (resolved_entries m row) \<Longrightarrow> h \<in> set (heads_idx m)"
  by (induction row) (auto simp: resolved_entries_Cons safe_resolve_in_heads split: option.splits)

text \<open>
  What one run of the inner loop adds to \<open>results\<close>: the first entries of the projection,
  labelled, as many as are needed to reach \<open>top_k\<close> and at least one when there is any,
  since the length is tested after the append.
\<close>

lemma extract_row_shape:
  "extract_row m row top_k acc = Inr (b, res) \<Longrightarrow>
     \<exists>new. res = acc @ new
        \<and> length new = min (length (resolved_entries m row)) (max 1 (nat (top_k - int (length acc))))
        \<and> list_all2 (labelled m) new (take (length new) (resolved_entries m row))
        \<and> (b \<longleftrightarrow> new \<noteq> [] \<and> top_k \<le> int (length res))"
proof (induction row arbitrary: acc)
  case Nil
  then show ?case by auto
next
  case (Cons p row)
  obtain idx val where p: "p = (idx, val)" by (cases p)
  show ?case
  proof (cases "safe_resolve m idx")
    case None
    with Cons.prems p have "extract_row m row top_k acc = Inr (b, res)" by simp
    from Cons.IH[OF this] show ?thesis using None p by (simp add: resolved_entries_Cons)
  next
    case (Some r)
    note res = this
    show ?thesis
    proof (cases "entity_id_to_label (factory m) r")
      case None
      with Cons.prems p res show ?thesis by simp
    next
      case (Some label)
      note lab = this
      show ?thesis
      proof (cases "top_k \<le> int (length (acc @ [(label, val)]))")
        case True
        with Cons.prems p res lab
        have "b" "res = acc @ [(label, val)]" by (auto simp: Let_def)
        then show ?thesis using True res lab p
          by (intro exI[of _ "[(label, val)]"]) (auto simp: resolved_entries_Cons labelled_def)
      next
        case False
        with Cons.prems p res lab
        have "extract_row m row top_k (acc @ [(label, val)]) = Inr (b, res)" by (auto simp: Let_def)
        from Cons.IH[OF this] obtain new where
          new: "res = (acc @ [(label, val)]) @ new"
            "length new = min (length (resolved_entries m row))
                (max 1 (nat (top_k - int (length (acc @ [(label, val)])))))"
            "list_all2 (labelled m) new (take (length new) (resolved_entries m row))"
            "b \<longleftrightarrow> new \<noteq> [] \<and> top_k \<le> int (length res)"
          by blast
        have len: "length ((label, val) # new) =
            min (length (resolved_entries m ((idx, val) # row))) (max 1 (nat (top_k - int (length acc))))"
          using new(2) False res by (simp add: resolved_entries_Cons)
        have bb: "b \<longleftrightarrow> top_k \<le> int (length res)"
          using new(1,2,4) False by (cases new) auto
        have ent: "resolved_entries m ((idx, val) # row) = (r, val) # resolved_entries m row"
          using res by (simp add: resolved_entries_Cons)
        have all2: "list_all2 (labelled m) ((label, val) # new)
            (take (length ((label, val) # new)) (resolved_entries m ((idx, val) # row)))"
          using new(3) lab by (simp add: ent labelled_def)
        have "res = acc @ ((label, val) # new)" using new(1) by simp
        with len all2 bb show ?thesis unfolding p
          by (intro exI[of _ "(label, val) # new"]) blast
      qed
    qed
  qed
qed


lemma map_snd_resolved_entries:
  "map snd (resolved_entries m row) = map snd (filter (\<lambda>(idx, val). safe_resolve m idx \<noteq> None) row)"
  by (induction row) (auto simp: resolved_entries_Cons split: option.splits)

lemma sorted_resolved_entries:
  "sorted (map snd row) \<Longrightarrow> sorted (map snd (resolved_entries m row))"
  by (simp add: map_snd_resolved_entries sorted_filter)

lemma labelled_scores: "list_all2 (labelled m) res es \<Longrightarrow> map snd res = map snd es"
  by (induction rule: list_all2_induct) (auto simp: labelled_def)

lemma ranked_row_sorted: "sorted (map snd (ranked_row m v r))"
  by (simp add: ranked_row_def topk_smallest_def Let_def zip_map_fst_snd)

lemma extract_single_row:
  assumes "extract_top_entities m [vals] [indices] top_k = Inr res"
  shows "\<exists>b. extract_row m (zip indices vals) top_k [] = Inr (b, res)"
proof (cases "extract_row m (zip indices vals) top_k []")
  case (Inl e)
  with assms show ?thesis by (simp add: extract_top_entities_def)
next
  case (Inr p)
  obtain b r where p: "p = (b, r)" by (cases p)
  from assms Inr p have "r = res"
    by (cases b) (simp_all add: extract_top_entities_def)
  with Inr p show ?thesis by simp
qed

lemma predict_similarity_shape:
  assumes "validate_input m entity_input = Inr valid_id"
    and "predict_similarity m entity_input relation_idx top_k = Inr res"
  shows "length res = min (length (resolved_entries m (ranked_row m valid_id relation_idx))) (max 1 (nat top_k))"
    and "list_all2 (labelled m) res
          (take (length res) (resolved_entries m (ranked_row m valid_id relation_idx)))"
proof -
  obtain vals indices where tk: "topk_smallest (score_t m valid_id relation_idx) = (vals, indices)"
    by (cases "topk_smallest (score_t m valid_id relation_idx)")
  have row: "ranked_row m valid_id relation_idx = zip indices vals"
    by (simp add: ranked_row_def tk)
  from assms tk have "extract_top_entities m [vals] [indices] top_k = Inr res"
    by (simp add: predict_similarity_def Let_def)
  then obtain b where "extract_row m (zip indices vals) top_k [] = Inr (b, res)"
    using extract_single_row by blast
  from extract_row_shape[OF this] row
  show "length res = min (length (resolved_entries m (ranked_row m valid_id relation_idx))) (max 1 (nat top_k))"
    and "list_all2 (labelled m) res
          (take (length res) (resolved_entries m (ranked_row m valid_id relation_idx)))"
    by auto
qed

lemma list_all2_memD:
  "list_all2 P xs ys \<Longrightarrow> x \<in> set xs \<Longrightarrow> \<exists>y \<in> set ys. P x y"
  by (induction rule: list_all2_induct) auto

lemma example_model_simps:
  "heads_idx example_model = [2, 0]"
  "score_t example_model v r = [3 / 10, 1 / 10, 2 / 10]"
  "entity_id_to_label (factory example_model) = [0 \<mapsto> ''site_a'', 1 \<mapsto> ''site_b'', 2 \<mapsto> ''site_c'']"
  "entity_to_id (factory example_model) = [''site_a'' \<mapsto> 0, ''site_b'' \<mapsto> 1, ''site_c'' \<mapsto> 2]"
  by (simp_all add: example_model_def example_factory_def)

lemma example_validate: "validate_input example_model (PyInt 0) = Inr 0"
  by (simp add: validate_input_def example_model_simps)

lemma example_ranked_row:
  "ranked_row example_model 0 5 = [(1, 1 / 10), (2, 2 / 10), (0, 3 / 10)]"
  by (simp add: ranked_row_def topk_smallest_def example_model_simps upt_conv_Cons)

lemma example_predict:
  "predict_similarity example_model (PyInt 0) 5 10 = Inr [(''site_a'', 1 / 10), (''site_c'', 3 / 10)]"
  by (simp add: predict_similarity_def example_validate topk_smallest_def extract_top_entities_def
      safe_resolve_def example_model_simps upt_conv_Cons)

subsection \<open>Loading\<close>

text \<open>The ids in \<open>heads_idx\<close> are those of the filtered heads, in their order.\<close>

lemma load_heads_idx_ids:
  "load_heads_idx tf heads = Inr idx \<Longrightarrow> map (entity_to_id tf) heads = map Some idx"
proof (induction heads arbitrary: idx)
  case Nil
  then show ?case by simp
next
  case (Cons h hs)
  then show ?case by (auto split: option.splits sum.splits)
qed

subsection \<open>Validation\<close>

lemma kind_id_not_found: "failure_kind (ValueError (msg_id_not_found s)) = Some EntityNotAllowed"
  by (simp add: failure_kind_def msg_id_not_found_def suffix_to_prefix)

lemma kind_label_not_allowed:
  "failure_kind (ValueError (msg_label_not_allowed l i)) = Some EntityNotAllowed"
  by (simp add: failure_kind_def msg_label_not_allowed_def suffix_to_prefix)

lemma kind_label_not_found:
  "failure_kind (ValueError (msg_label_not_found l)) = Some UnknownEntityLabel"
  by (simp add: failure_kind_def msg_label_not_found_def suffix_def)

lemma kind_type_error: "failure_kind (TypeError msg) = Some InvalidEntityInputType"
  by (simp add: failure_kind_def)

text \<open>
  C5: entity-input validation classifies every input. The exception raised by
  \<open>_validate_input\<close>, read through \<open>failure_kind\<close>, is the failure the specification
  names: an integer outside \<open>heads_idx\<close> gives EntityNotAllowed, a label missing from
  \<open>entity_to_id\<close> gives UnknownEntityLabel, a label whose id is outside \<open>heads_idx\<close>
  gives EntityNotAllowed, any other type gives InvalidEntityInputType, and an accepted
  input gives the same id. Since \<open>failure_kind\<close> reads only the exception, the three
  kinds can be told apart by the caller.
\<close>

theorem validate_input_classifies:
  "map_sum failure_kind id (validate_input m entity_input)
     = map_sum Some id (spec_validate m entity_input)"
  by (cases entity_input)
     (simp_all add: validate_input_def spec_validate_def as_integer_def as_label_def
        kind_id_not_found kind_label_not_allowed kind_label_not_found kind_type_error
        split: option.splits)

text \<open>
  C2: a failed validation is not surfaced as an error. For the id 7, which is not in
  \<open>heads_idx\<close>, \<open>predict_similarity\<close> returns normally, with the message of the
  \<open>ValueError\<close> as the label of a single pair of score -1.
\<close>

theorem predict_similarity_sentinel:
  "predict_similarity example_model (PyInt 7) 5 10 = Inr [(''ID '' @ [apostrophe] @ ''7'' @ [apostrophe] @ '' not found in heads_idx.'', - 1)]"
  by (simp add: predict_similarity_def validate_input_def example_model_simps msg_id_not_found_def
     str_int_def str_nat.simps digit_char_def)

subsection \<open>Length, order and origin of the results\<close>

text \<open>
  For \<open>top_k\<close> of at least one, a ranking whose validation passed returns at most
  \<open>top_k\<close> pairs, in ascending score order, and exactly as many as the smaller of
  \<open>top_k\<close> and the number of projected entries.
\<close>

lemma predict_similarity_bounded_sorted:
  assumes "validate_input m entity_input = Inr valid_id"
    and "predict_similarity m entity_input relation_idx top_k = Inr res"
    and "1 \<le> top_k"
  shows "int (length res) \<le> top_k \<and> sorted (map snd res)
     \<and> length res = min (nat top_k) (length (resolved_entries m (ranked_row m valid_id relation_idx)))"
proof -
  note sh = predict_similarity_shape[OF assms(1,2)]
  have "map snd res = take (length res) (map snd (resolved_entries m (ranked_row m valid_id relation_idx)))"
    using labelled_scores[OF sh(2)] by (simp add: take_map)
  moreover have "sorted (map snd (resolved_entries m (ranked_row m valid_id relation_idx)))"
    by (rule sorted_resolved_entries) (rule ranked_row_sorted)
  ultimately have "sorted (map snd res)"
    by (metis sorted_wrt_take)
  moreover have "length res = min (nat top_k) (length (resolved_entries m (ranked_row m valid_id relation_idx)))"
    using sh(1) assms(3) by (simp add: min.commute max_def)
  ultimately show ?thesis using assms(3) by auto
qed

text \<open>
  C4: the bound \<open>length \<le> top_k\<close> fails for \<open>top_k = 0\<close>. The loop appends before it
  compares the length with \<open>top_k\<close>, so one pair is returned.
\<close>

theorem predict_similarity_top_k_zero:
  "predict_similarity example_model (PyInt 0) 5 0 = Inr [(''site_a'', 1 / 10)]"
  by (simp add: predict_similarity_def example_validate topk_smallest_def extract_top_entities_def
      safe_resolve_def example_model_simps upt_conv_Cons)

text \<open>
  C9: every pair returned by a ranking whose validation passed carries the label of an
  entity of \<open>heads_idx\<close>; the pairs are, in order, the leading entries of the projection
  of the ranked row, from which the positions outside \<open>heads_idx\<close> are left out.
\<close>

theorem ranked_entries_in_candidate_set:
  assumes "validate_input m entity_input = Inr valid_id"
    and "predict_similarity m entity_input relation_idx top_k = Inr res"
  shows "(\<forall>(label, score) \<in> set res.
            \<exists>h \<in> set (heads_idx m). entity_id_to_label (factory m) h = Some label)
     \<and> list_all2 (labelled m) res
          (take (length res) (resolved_entries m (ranked_row m valid_id relation_idx)))"
proof -
  let ?E = "resolved_entries m (ranked_row m valid_id relation_idx)"
  note sh = predict_similarity_shape[OF assms]
  have "\<exists>h \<in> set (heads_idx m). entity_id_to_label (factory m) h = Some label"
    if "(label, score) \<in> set res" for label score
  proof -
    from list_all2_memD[OF sh(2) that]
    obtain e where e: "e \<in> set (take (length res) ?E)" "labelled m (label, score) e" ..
    then have "e \<in> set ?E" by (meson in_set_takeD)
    then have "fst e \<in> set (heads_idx m)"
      using resolved_entries_in_heads[of "fst e" "snd e"] by simp
    with e(2) show ?thesis by (auto simp: labelled_def)
  qed
  with sh(2) show ?thesis by auto
qed

theorem ranked_entries_in_candidate_set_witness:
  "validate_input example_model (PyInt 0) = Inr 0
   \<and> predict_similarity example_model (PyInt 0) 5 10 = Inr [(''site_a'', 1 / 10), (''site_c'', 3 / 10)]
   \<and> 0 \<in> set (heads_idx example_model)
   \<and> entity_id_to_label (factory example_model) 0 = Some ''site_a''
   \<and> 2 \<in> set (heads_idx example_model)
   \<and> entity_id_to_label (factory example_model) 2 = Some ''site_c''
   \<and> resolved_entries example_model (ranked_row example_model 0 5) = [(0, 1 / 10), (2, 3 / 10)]
   \<and> list_all2 (labelled example_model) [(''site_a'', 1 / 10), (''site_c'', 3 / 10)]
          [(0, 1 / 10), (2, 3 / 10)]"
proof -
  have entries: "resolved_entries example_model (ranked_row example_model 0 5) = [(0, 1 / 10), (2, 3 / 10)]"
    by (simp add: example_ranked_row resolved_entries_Cons safe_resolve_def example_model_simps)
  show ?thesis
    using ranked_entries_in_candidate_set[OF example_validate example_predict]
    by (simp add: example_validate example_predict entries example_model_simps)
qed

section \<open>Properties of the rate limiter\<close>

subsection \<open>Decimal strings\<close>

text \<open>The decimal of an integer reads back as that integer, and only canonical text is read.\<close>

lemma digit_val_digit_char: "d < 10 \<Longrightarrow> digit_val (digit_char d) = Some d"
proof -
  assume "d < 10"
  then consider "d = 0" | "d = 1" | "d = 2" | "d = 3" | "d = 4" | "d = 5" | "d = 6" | "d = 7"
    | "d = 8" | "d = 9" by atomize_elim arith
  then show ?thesis
    by cases (simp_all add: digit_val_def digit_char_def)
qed

lemma digit_char_not_minus: "d < 10 \<Longrightarrow> digit_char d \<noteq> CHR ''-''"
proof -
  assume "d < 10"
  then consider "d = 0" | "d = 1" | "d = 2" | "d = 3" | "d = 4" | "d = 5" | "d = 6" | "d = 7"
    | "d = 8" | "d = 9" by atomize_elim arith
  then show ?thesis
    by cases (simp_all add: digit_char_def)
qed

lemma parse_digits_append:
  "parse_digits acc (xs @ ys) =
     (case parse_digits acc xs of None \<Rightarrow> None | Some a \<Rightarrow> parse_digits a ys)"
  by (induction xs arbitrary: acc) (auto split: option.splits)

lemma parse_digits_str_nat: "parse_digits 0 (str_nat n) = Some n"
proof (induction n rule: str_nat.induct)
  case (1 n)
  show ?case
  proof (cases "n < 10")
    case True
    then show ?thesis
      by (subst str_nat.simps) (simp add: digit_val_digit_char)
  next
    case False
    have "n mod 10 < 10" by simp
    with False 1 show ?thesis
      by (subst str_nat.simps) (simp add: parse_digits_append digit_val_digit_char)
  qed
qed

lemma str_nat_nonempty: "str_nat n \<noteq> []"
  by (subst str_nat.simps) simp

lemma hd_str_nat_not_minus: "hd (str_nat n) \<noteq> CHR ''-''"
proof (induction n rule: str_nat.induct)
  case (1 n)
  show ?case
  proof (cases "n < 10")
    case True
    then show ?thesis by (subst str_nat.simps) (simp add: digit_char_not_minus)
  next
    case False
    with 1 show ?thesis
      by (subst str_nat.simps) (simp add: str_nat_nonempty)
  qed
qed

lemma string2ll_str_int:
  assumes "- (2 ^ 63) \<le> n" "n < 2 ^ 63"
  shows "string2ll (str_int n) = Some n"
proof (cases "n < 0")
  case True
  then show ?thesis using assms
    by (simp add: string2ll_def str_int_def parse_digits_str_nat str_nat_nonempty)
next
  case False
  obtain c cs where s: "str_nat (nat n) = c # cs"
    using str_nat_nonempty[of "nat n"] by (cases "str_nat (nat n)") auto
  have "c \<noteq> CHR ''-''" using hd_str_nat_not_minus[of "nat n"] s by simp
  moreover have "parse_digits 0 (c # cs) = Some (nat n)"
    using parse_digits_str_nat[of "nat n"] s by simp
  ultimately show ?thesis using False assms s
    by (simp add: string2ll_def str_int_def del: parse_digits.simps)
qed

lemma string2ll_canonical: "string2ll s = Some n \<Longrightarrow> s = str_int n"
  by (auto simp: string2ll_def Let_def split: option.splits if_splits list.splits)

subsection \<open>The counter of a window\<close>

lemma current_minute_bounds:
  assumes "current_minute t = w"
  shows "60 * real_of_int w \<le> t" and "t < 60 * (real_of_int w + 1)"
proof -
  from assms have "real_of_int w \<le> t / 60" "t / 60 < real_of_int w + 1"
    unfolding current_minute_def by linarith+
  then show "60 * real_of_int w \<le> t" and "t < 60 * (real_of_int w + 1)" by simp_all
qed

lemma check_rate_limit_by_count:
  assumes "redis_incr now r (usage_key k (current_minute now)) = Inr (n, r1)"
  shows "fst (check_rate_limit now r k tier)
           = (if n \<le> rate_limit tier then Inr () else Inl too_many_requests)"
  using assms by (simp add: check_rate_limit_def Let_def)

lemma check_rate_limit_first:
  assumes "r (usage_key k w) = None" and "current_minute t = w"
  shows "check_rate_limit t r k tier =
           (if 1 \<le> rate_limit tier then Inr () else Inl too_many_requests,
            r(usage_key k w \<mapsto> \<lparr>content = str_int 1, expires_at = Some (t + 60)\<rparr>))"
  using assms
  by (simp add: check_rate_limit_def Let_def redis_incr_def redis_live_def redis_expire_def)

lemma check_rate_limit_next:
  assumes "r (usage_key k w) = Some \<lparr>content = str_int c, expires_at = Some e\<rparr>"
    and "60 * (real_of_int w + 1) \<le> e" and "current_minute t = w"
    and "0 < c" and "c < 2 ^ 63 - 1"
  shows "check_rate_limit t r k tier =
           (if c + 1 \<le> rate_limit tier then Inr () else Inl too_many_requests,
            r(usage_key k w \<mapsto> \<lparr>content = str_int (c + 1), expires_at = Some e\<rparr>))"
proof -
  have live: "redis_live t r (usage_key k w) = Some \<lparr>content = str_int c, expires_at = Some e\<rparr>"
    using assms(1,2) current_minute_bounds(2)[OF assms(3)] by (simp add: redis_live_def)
  have parse: "string2ll (str_int c) = Some c"
    using assms(4,5) by (intro string2ll_str_int) simp_all
  have "redis_incr t r (usage_key k w) =
          Inr (c + 1, r(usage_key k w \<mapsto> \<lparr>content = str_int (c + 1), expires_at = Some e\<rparr>))"
    using assms(5) by (simp add: redis_incr_def live parse)
  then show ?thesis using assms(3,4)
    by (simp add: check_rate_limit_def Let_def)
qed

lemma check_rate_limit_counter:
  assumes "counter_at r (usage_key k w) c w" and "current_minute t = w"
    and "0 \<le> c" and "c < 2 ^ 63 - 1"
  shows "fst (check_rate_limit t r k tier)
            = (if c + 1 \<le> rate_limit tier then Inr () else Inl too_many_requests)"
    and "counter_at (snd (check_rate_limit t r k tier)) (usage_key k w) (c + 1) w"
proof -
  show "fst (check_rate_limit t r k tier)
            = (if c + 1 \<le> rate_limit tier then Inr () else Inl too_many_requests)"
  proof (cases "c = 0")
    case True
    with assms(1) have "r (usage_key k w) = None" by (simp add: counter_at_def)
    from check_rate_limit_first[where r=r and k=k, OF this assms(2)] True show ?thesis by simp
  next
    case False
    with assms(1,3) obtain e where
      e: "r (usage_key k w) = Some \<lparr>content = str_int c, expires_at = Some e\<rparr>"
         "60 * (real_of_int w + 1) \<le> e" and pos: "0 < c"
      by (auto simp: counter_at_def)
    from check_rate_limit_next[where r=r and k=k, OF e assms(2) pos assms(4)] show ?thesis by simp
  qed
  show "counter_at (snd (check_rate_limit t r k tier)) (usage_key k w) (c + 1) w"
  proof (cases "c = 0")
    case True
    with assms(1) have "r (usage_key k w) = None" by (simp add: counter_at_def)
    from check_rate_limit_first[where r=r and k=k, OF this assms(2)] True current_minute_bounds(1)[OF assms(2)]
    show ?thesis by (simp add: counter_at_def)
  next
    case False
    with assms(1,3) obtain e where
      e: "r (usage_key k w) = Some \<lparr>content = str_int c, expires_at = Some e\<rparr>"
         "60 * (real_of_int w + 1) \<le> e" and pos: "0 < c"
      by (auto simp: counter_at_def)
    from check_rate_limit_next[where r=r and k=k, OF e assms(2) pos assms(4)] e(2) pos
    show ?thesis by (simp add: counter_at_def)
  qed
qed

lemma upt_0_Suc_map: "[0..<Suc n] = 0 # map Suc [0..<n]"
  by (simp add: upt_conv_Cons map_Suc_upt del: upt_Suc)

lemma rate_limit_run_counter:
  assumes "counter_at r (usage_key k w) c w" and "\<forall>t \<in> set ts. current_minute t = w"
    and "0 \<le> c" and "c + int (length ts) < 2 ^ 63"
  shows "fst (rate_limit_run r k tier ts)
           = map (\<lambda>i. if c + int i < rate_limit tier then Inr () else Inl too_many_requests)
               [0..<length ts]"
  using assms
proof (induction ts arbitrary: r c)
  case Nil
  then show ?case by simp
next
  case (Cons t ts)
  have t: "current_minute t = w" using Cons.prems(2) by simp
  have c: "c < 2 ^ 63 - 1" using Cons.prems(4) by simp
  note step = check_rate_limit_counter[where r=r and k=k and tier=tier, OF Cons.prems(1) t Cons.prems(3) c]
  obtain out r1 where o: "check_rate_limit t r k tier = (out, r1)"
    by (cases "check_rate_limit t r k tier")
  with step have out: "out = (if c + 1 \<le> rate_limit tier then Inr () else Inl too_many_requests)"
    and r1: "counter_at r1 (usage_key k w) (c + 1) w" by simp_all
  have "fst (rate_limit_run r1 k tier ts)
          = map (\<lambda>i. if (c + 1) + int i < rate_limit tier then Inr () else Inl too_many_requests)
              [0..<length ts]"
    using Cons.prems by (intro Cons.IH[where r=r1, OF r1]) simp_all
  moreover have "fst (rate_limit_run r k tier (t # ts)) = out # fst (rate_limit_run r1 k tier ts)"
    by (simp add: o split: prod.splits)
  ultimately show ?case
    unfolding out by (simp add: upt_0_Suc_map comp_def add.commute add.left_commute del: upt_Suc)
qed

subsection \<open>One counter for each API key and window\<close>

text \<open>
  The decimal of an integer holds no colon and determines the integer, so the key
  \<open>usage:<api_key>:<window>\<close> determines both the API key and the window; the rate
  limiter touches no entry but the one of its key.
\<close>

lemma redis_incr_other:
  "redis_incr now r rk = Inr (n, r1) \<Longrightarrow> key \<noteq> rk \<Longrightarrow> r1 key = r key"
  by (auto simp: redis_incr_def split: option.splits if_splits)

lemma redis_expire_other: "key \<noteq> rk \<Longrightarrow> redis_expire now r rk s key = r key"
  by (simp add: redis_expire_def split: option.splits)

lemma digit_char_is_digit: "d < 10 \<Longrightarrow> digit_char d \<in> set ''0123456789''"
proof -
  assume "d < 10"
  then consider "d = 0" | "d = 1" | "d = 2" | "d = 3" | "d = 4" | "d = 5" | "d = 6" | "d = 7"
    | "d = 8" | "d = 9" by atomize_elim arith
  then show ?thesis
    by cases (simp_all add: digit_char_def)
qed

lemma str_nat_digits: "set (str_nat n) \<subseteq> set ''0123456789''"
proof (induction n rule: str_nat.induct)
  case (1 n)
  show ?case
  proof (cases "n < 10")
    case True
    then show ?thesis using digit_char_is_digit[of n] by (subst str_nat.simps) simp
  next
    case False
    have "n mod 10 < 10" by simp
    from digit_char_is_digit[OF this] False 1 show ?thesis
      by (subst str_nat.simps) simp
  qed
qed

lemma str_int_no_colon: "CHR '':'' \<notin> set (str_int n)"
  using str_nat_digits[of "nat n"] str_nat_digits[of "nat (- n)"]
  by (auto simp: str_int_def)

lemma str_nat_inj:
  assumes "str_nat a = str_nat b"
  shows "a = b"
proof -
  have "Some a = parse_digits 0 (str_nat a)" by (simp only: parse_digits_str_nat)
  also have "\<dots> = parse_digits 0 (str_nat b)" by (simp only: assms)
  also have "\<dots> = Some b" by (simp only: parse_digits_str_nat)
  finally show ?thesis by simp
qed

lemma str_int_inj:
  assumes "str_int a = str_int b"
  shows "a = b"
proof -
  have neg_pos: False if "x < 0" "0 \<le> y" "str_int x = str_int y" for x y
  proof -
    from that have "CHR ''-'' # str_nat (nat (- x)) = str_nat (nat y)" by (simp add: str_int_def)
    then have "hd (str_nat (nat y)) = CHR ''-''" by (metis list.sel(1))
    with hd_str_nat_not_minus[of "nat y"] show False by simp
  qed
  show ?thesis
  proof (cases "a < 0")
    case True
    show ?thesis
    proof (cases "b < 0")
      case True
      with \<open>a < 0\<close> assms have "str_nat (nat (- a)) = str_nat (nat (- b))" by (simp add: str_int_def)
      then have "nat (- a) = nat (- b)" by (rule str_nat_inj)
      with True \<open>a < 0\<close> show ?thesis by simp
    next
      case False
      with neg_pos[of a b] \<open>a < 0\<close> assms show ?thesis by simp
    qed
  next
    case False
    show ?thesis
    proof (cases "b < 0")
      case True
      with neg_pos[of b a] False assms show ?thesis by simp
    next
      case bpos: False
      with False assms have "str_nat (nat a) = str_nat (nat b)" by (simp add: str_int_def)
      then have "nat a = nat b" by (rule str_nat_inj)
      with False bpos show ?thesis by simp
    qed
  qed
qed

lemma split_at_last_colon:
  assumes "CHR '':'' \<notin> set s1" and "CHR '':'' \<notin> set s2"
    and "k1 @ CHR '':'' # s1 = k2 @ CHR '':'' # s2"
  shows "k1 = k2 \<and> s1 = s2"
  using assms(3)
proof (induction k1 arbitrary: k2)
  case Nil
  then show ?case using assms(1) by (cases k2) auto
next
  case (Cons c k1)
  show ?case
  proof (cases k2)
    case Nil
    with Cons.prems assms(2) show ?thesis by auto
  next
    case (Cons c' k2')
    with Cons.prems Cons.IH[of k2'] show ?thesis by simp
  qed
qed

lemma usage_key_inj:
  assumes "usage_key k minute = usage_key k' minute'"
  shows "k = k' \<and> minute = minute'"
proof -
  from assms have "k @ CHR '':'' # str_int minute = k' @ CHR '':'' # str_int minute'"
    by (simp add: usage_key_def)
  from split_at_last_colon[OF str_int_no_colon str_int_no_colon this]
  show ?thesis by (auto dest: str_int_inj)
qed

lemma check_rate_limit_other:
  assumes "key \<noteq> usage_key k (current_minute t)"
  shows "snd (check_rate_limit t r k tier) key = r key"
proof (cases "redis_incr t r (usage_key k (current_minute t))")
  case (Inl x)
  then show ?thesis by (simp add: check_rate_limit_def Let_def)
next
  case (Inr p)
  obtain n r1 where p: "p = (n, r1)" by (cases p)
  have "r1 key = r key" using redis_incr_other[OF Inr[unfolded p] assms] .
  then show ?thesis using assms Inr p
    by (simp add: check_rate_limit_def Let_def redis_expire_other)
qed

lemma rate_limit_run_other:
  assumes "key \<noteq> usage_key k w" and "\<forall>t \<in> set ts. current_minute t = w"
  shows "snd (rate_limit_run r k tier ts) key = r key"
  using assms(2)
proof (induction ts arbitrary: r)
  case Nil
  then show ?case by simp
next
  case (Cons t ts)
  obtain out r1 where o: "check_rate_limit t r k tier = (out, r1)"
    by (cases "check_rate_limit t r k tier")
  have t: "current_minute t = w" using Cons.prems by simp
  have "r1 key = r key"
    using check_rate_limit_other[where key=key and k=k and t=t and r=r and tier=tier] assms(1) t o
    by simp
  moreover have "snd (rate_limit_run r1 k tier ts) key = r1 key"
    using Cons.prems by (intro Cons.IH) simp
  moreover have "snd (rate_limit_run r k tier (t # ts)) = snd (rate_limit_run r1 k tier ts)"
    by (cases "rate_limit_run r1 k tier ts") (simp add: o)
  ultimately show ?case by simp
qed

text \<open>
  C1: the rate limiter admits a request exactly when the counter of the key
  \<open>usage:<api_key>:<window>\<close>, with the window the floor of the epoch seconds divided by
  60, does not exceed the limit after the increment; the limit is 5 for FREEMIUM, 50 for
  PREMIUM and 5 for any other tier; a count above the limit gives the 429 error. The key
  is the text \<open>usage:\<close>, the API key, a colon and the decimal of the window, and two
  keys are equal only for the same API key and window. Hence, from a store without the
  counter, consecutive requests for a key at times of one window are admitted up to the
  limit and refused from the next one on, and after them a request for another API key
  or in another window, whose counter is missing, is admitted. (When \<open>INCR\<close> itself
  fails there is no count, and the request ends with that error.)
\<close>

theorem rate_limiter_admits_up_to_limit:
  "rate_limit ''FREEMIUM'' = 5 \<and> rate_limit ''PREMIUM'' = 50
   \<and> (tier \<noteq> ''FREEMIUM'' \<and> tier \<noteq> ''PREMIUM'' \<longrightarrow> rate_limit tier = 5)
   \<and> too_many_requests = HTTPException 429 ''Rate limit exceeded. Please try again later.''
   \<and> usage_key k w = ''usage:'' @ k @ '':'' @ str_int w
   \<and> (usage_key k w = usage_key k' w' \<longrightarrow> k = k' \<and> w = w')
   \<and> fst (check_rate_limit now r k tier)
        = (case redis_incr now r (''usage:'' @ k @ '':'' @ str_int \<lfloor>now / 60\<rfloor>) of
             Inl e \<Rightarrow> Inl (Unhandled e)
           | Inr (n, r1) \<Rightarrow> if n \<le> rate_limit tier then Inr () else Inl too_many_requests)
   \<and> (r0 (''usage:'' @ k @ '':'' @ str_int w) = None
        \<and> (\<forall>t \<in> set ts. \<lfloor>t / 60\<rfloor> = w) \<and> int (length ts) < 2 ^ 63
        \<longrightarrow> fst (rate_limit_run r0 k tier ts)
              = map (\<lambda>i. if int i < rate_limit tier then Inr () else Inl too_many_requests)
                  [0..<length ts]
          \<and> (\<forall>k' w' t'. (k' \<noteq> k \<or> w' \<noteq> w) \<and> \<lfloor>t' / 60\<rfloor> = w'
                 \<and> r0 (''usage:'' @ k' @ '':'' @ str_int w') = None
                \<longrightarrow> fst (check_rate_limit t' (snd (rate_limit_run r0 k tier ts)) k' tier) = Inr ()))"
proof -
  have limits: "rate_limit ''FREEMIUM'' = 5 \<and> rate_limit ''PREMIUM'' = 50
     \<and> (tier \<noteq> ''FREEMIUM'' \<and> tier \<noteq> ''PREMIUM'' \<longrightarrow> rate_limit tier = 5)"
    by (simp add: rate_limit_def)
  have key: "usage_key k w = ''usage:'' @ k @ '':'' @ str_int w" for k w
    by (simp add: usage_key_def)
  have inj: "usage_key k w = usage_key k' w' \<longrightarrow> k = k' \<and> w = w'"
    using usage_key_inj by blast
  have one: "fst (check_rate_limit now r k tier)
        = (case redis_incr now r (''usage:'' @ k @ '':'' @ str_int \<lfloor>now / 60\<rfloor>) of
             Inl e \<Rightarrow> Inl (Unhandled e)
           | Inr (n, r1) \<Rightarrow> if n \<le> rate_limit tier then Inr () else Inl too_many_requests)"
    by (simp add: check_rate_limit_def current_minute_def usage_key_def Let_def
        split: sum.splits prod.splits)
  have run: "fst (rate_limit_run r0 k tier ts)
              = map (\<lambda>i. if int i < rate_limit tier then Inr () else Inl too_many_requests)
                  [0..<length ts]"
    if "r0 (''usage:'' @ k @ '':'' @ str_int w) = None" "\<forall>t \<in> set ts. \<lfloor>t / 60\<rfloor> = w"
       "int (length ts) < 2 ^ 63"
  proof -
    have "counter_at r0 (usage_key k w) 0 w" using that(1) by (simp add: counter_at_def key)
    moreover have "\<forall>t \<in> set ts. current_minute t = w" using that(2) by (simp add: current_minute_def)
    ultimately show ?thesis
      using rate_limit_run_counter[where r=r0 and k=k and w=w and c=0 and ts=ts and tier=tier] that(3)
      by simp
  qed
  have other: "fst (check_rate_limit t' (snd (rate_limit_run r0 k tier ts)) k' tier) = Inr ()"
    if "\<forall>t \<in> set ts. \<lfloor>t / 60\<rfloor> = w" "k' \<noteq> k \<or> w' \<noteq> w" "\<lfloor>t' / 60\<rfloor> = w'"
       "r0 (''usage:'' @ k' @ '':'' @ str_int w') = None" for k' w' t'
  proof -
    have ne: "usage_key k' w' \<noteq> usage_key k w" using that(2) usage_key_inj[of k' w' k w] by auto
    have ts: "\<forall>t \<in> set ts. current_minute t = w" using that(1) by (simp add: current_minute_def)
    have "snd (rate_limit_run r0 k tier ts) (usage_key k' w') = r0 (usage_key k' w')"
      by (rule rate_limit_run_other[OF ne ts])
    then have absent: "snd (rate_limit_run r0 k tier ts) (usage_key k' w') = None"
      using that(4) by (simp add: key)
    have t': "current_minute t' = w'" using that(3) by (simp add: current_minute_def)
    show ?thesis
      using check_rate_limit_first[where r="snd (rate_limit_run r0 k tier ts)" and k=k' and w=w'
          and t=t' and tier=tier, OF absent t']
      by (simp add: rate_limit_def)
  qed
  have tm: "too_many_requests = HTTPException 429 ''Rate limit exceeded. Please try again later.''"
    by (simp add: too_many_requests_def)
  have window: "r0 (''usage:'' @ k @ '':'' @ str_int w) = None
        \<and> (\<forall>t \<in> set ts. \<lfloor>t / 60\<rfloor> = w) \<and> int (length ts) < 2 ^ 63
        \<longrightarrow> fst (rate_limit_run r0 k tier ts)
              = map (\<lambda>i. if int i < rate_limit tier then Inr () else Inl too_many_requests)
                  [0..<length ts]
          \<and> (\<forall>k' w' t'. (k' \<noteq> k \<or> w' \<noteq> w) \<and> \<lfloor>t' / 60\<rfloor> = w'
                 \<and> r0 (''usage:'' @ k' @ '':'' @ str_int w') = None
                \<longrightarrow> fst (check_rate_limit t' (snd (rate_limit_run r0 k tier ts)) k' tier) = Inr ())"
  proof (intro impI, elim conjE, intro conjI allI impI)
    assume a: "r0 (''usage:'' @ k @ '':'' @ str_int w) = None" "\<forall>t \<in> set ts. \<lfloor>t / 60\<rfloor> = w"
      "int (length ts) < 2 ^ 63"
    show "fst (rate_limit_run r0 k tier ts)
              = map (\<lambda>i. if int i < rate_limit tier then Inr () else Inl too_many_requests)
                  [0..<length ts]"
      by (rule run[OF a])
    fix k' :: string and w' :: int and t' :: real
    assume b: "(k' \<noteq> k \<or> w' \<noteq> w) \<and> \<lfloor>t' / 60\<rfloor> = w'
                 \<and> r0 (''usage:'' @ k' @ '':'' @ str_int w') = None"
    show "fst (check_rate_limit t' (snd (rate_limit_run r0 k tier ts)) k' tier) = Inr ()"
    proof -
      from b have b1: "k' \<noteq> k \<or> w' \<noteq> w" and b2: "\<lfloor>t' / 60\<rfloor> = w'"
        and b3: "r0 (''usage:'' @ k' @ '':'' @ str_int w') = None" by blast+
      show ?thesis by (rule other[OF a(2) b1 b2 b3])
    qed
  qed
  note k = key[of k w]
  from limits tm k inj one window show ?thesis by (intro conjI) (elim conjE, assumption)+
qed

theorem rate_limiter_admits_up_to_limit_witness:
  "rate_limit ''GOLD'' = 5
   \<and> usage_key ''key1'' 2 = ''usage:key1:2''
   \<and> fst (rate_limit_run Map.empty ''key1'' ''GOLD'' [120, 130, 140, 150, 160, 170])
       = [Inr (), Inr (), Inr (), Inr (), Inr (), Inl (HTTPException 429 ''Rate limit exceeded. Please try again later.'')]
   \<and> fst (check_rate_limit 185
            (snd (rate_limit_run Map.empty ''key1'' ''GOLD'' [120, 130, 140, 150, 160, 170]))
            ''key1'' ''GOLD'') = Inr ()
   \<and> fst (check_rate_limit 175
            (snd (rate_limit_run Map.empty ''key1'' ''GOLD'' [120, 130, 140, 150, 160, 170]))
            ''key2'' ''GOLD'') = Inr ()"
proof -
  have s2: "str_int 2 = ''2''" by (simp add: str_int_def str_nat.simps digit_char_def)
  note th = rate_limiter_admits_up_to_limit[where tier="''GOLD''" and ?r0.0=Map.empty
      and k="''key1''" and w=2 and ts="[120, 130, 140, 150, 160, 170]"]
  have run: "fst (rate_limit_run Map.empty ''key1'' ''GOLD'' [120, 130, 140, 150, 160, 170])
       = [Inr (), Inr (), Inr (), Inr (), Inr (), Inl (HTTPException 429 ''Rate limit exceeded. Please try again later.'')]"
    and later: "\<And>k' w' t'. (k' \<noteq> ''key1'' \<or> w' \<noteq> 2) \<Longrightarrow> \<lfloor>t' / 60\<rfloor> = w'
        \<Longrightarrow> fst (check_rate_limit t' (snd (rate_limit_run Map.empty ''key1'' ''GOLD''
                  [120, 130, 140, 150, 160, 170])) k' ''GOLD'') = Inr ()"
    using th by (simp_all add: rate_limit_def)
  have a: "fst (check_rate_limit 185
            (snd (rate_limit_run Map.empty ''key1'' ''GOLD'' [120, 130, 140, 150, 160, 170]))
            ''key1'' ''GOLD'') = Inr ()"
    by (rule later[where w'=3]) simp_all
  have b: "fst (check_rate_limit 175
            (snd (rate_limit_run Map.empty ''key1'' ''GOLD'' [120, 130, 140, 150, 160, 170]))
            ''key2'' ''GOLD'') = Inr ()"
    by (rule later[where w'=2]) simp_all
  from run a b show ?thesis by (simp add: rate_limit_def usage_key_def s2)
qed

section \<open>Properties of registration\<close>

lemma find_append:
  "find P (xs @ ys) = (case find P xs of None \<Rightarrow> find P ys | Some x \<Rightarrow> Some x)"
  by (induction xs) auto

lemma create_user_existing:
  assumes "find_one (users db) e \<noteq> None"
  shows "create_user_in_db env db e pw = (False, db)"
  using assms by (auto simp: create_user_in_db_def split: option.splits)

lemma register_existing:
  assumes "find_one (users db) (req_email req_data) \<noteq> None"
  shows "register_user h env db req_data = (Inl user_exists_error, db)"
  using create_user_existing[OF assms]
  by (simp add: register_user_def user_exists_error_def Let_def)

lemma create_user_keeps:
  assumes "find_one (users db) e \<noteq> None"
  shows "find_one (users (snd (create_user_in_db env db e' pw))) e \<noteq> None"
    and "api_keys (snd (create_user_in_db env db e' pw)) = api_keys db"
  using assms
  by (auto simp: create_user_in_db_def find_one_def find_append split: option.splits)

lemma create_user_email:
  "fst (create_user_in_db env db e' pw) \<Longrightarrow> find_one (users db) e' = None"
  by (auto simp: create_user_in_db_def split: option.splits if_splits)

lemma register_keeps:
  assumes "find_one (users db) e \<noteq> None"
    and "\<forall>row \<in> set (api_keys db). user_email row \<noteq> e"
  shows "find_one (users (snd (register_user h env db req_data))) e \<noteq> None"
    and "\<forall>row \<in> set (api_keys (snd (register_user h env db req_data))). user_email row \<noteq> e"
proof -
  let ?e' = "req_email req_data"
  let ?pw = "h (salt env) (req_password req_data)"
  obtain created db1 where c: "create_user_in_db env db ?e' ?pw = (created, db1)"
    by (cases "create_user_in_db env db ?e' ?pw")
  have u1: "find_one (users db1) e \<noteq> None" and k1: "api_keys db1 = api_keys db"
    using create_user_keeps[OF assms(1), of env ?e' ?pw] c by simp_all
  have ne: "?e' \<noteq> e" if created
    using create_user_email[of env db ?e' ?pw] c that assms(1) by auto
  show "find_one (users (snd (register_user h env db req_data))) e \<noteq> None"
    using u1 by (simp add: register_user_def Let_def c insert_api_key_in_db_def)
  show "\<forall>row \<in> set (api_keys (snd (register_user h env db req_data))). user_email row \<noteq> e"
    using assms(2) k1 ne by (auto simp: register_user_def Let_def c insert_api_key_in_db_def)
qed

lemma register_all_keeps:
  assumes "find_one (users db) e \<noteq> None"
    and "\<forall>row \<in> set (api_keys db). user_email row \<noteq> e"
  shows "find_one (users (register_all h db calls)) e \<noteq> None
     \<and> (\<forall>row \<in> set (api_keys (register_all h db calls)). user_email row \<noteq> e)"
  using assms
proof (induction calls arbitrary: db)
  case Nil
  then show ?case by simp
next
  case (Cons call calls)
  obtain env req_data where call: "call = (env, req_data)" by (cases call)
  show ?case unfolding call register_all.simps
    by (rule Cons.IH) (use register_keeps[OF Cons.prems] in blast)+
qed

lemma register_fresh:
  assumes "find_one (users db) (req_email req_data) = None" and "mongo env = MongoOk"
  shows "register_user h env db req_data =
     (let db1 = db\<lparr>users := users db
                  @ [\<lparr>email = req_email req_data, password = h (salt env) (req_password req_data)\<rparr>]\<rparr>
      in if postgres_raises env
         then (Inl (Unhandled (IndexError ''string index out of range'')), db1)
         else
           (let tier = (if contains condition (req_email req_data) then ''PREMIUM'' else ''FREEMIUM'')
            in (Inr \<lparr>resp_api_key = Some (token_hex env), resp_token = None,
                     resp_message = Some registered_message, resp_account_type = Some tier\<rparr>,
                db1\<lparr>api_keys := api_keys db1
                     @ [\<lparr>api_key = token_hex env, user_email = req_email req_data,
                          account_type = tier\<rparr>]\<rparr>)))"
  using assms
  by (simp add: register_user_def create_user_in_db_def insert_api_key_in_db_def Let_def)

text \<open>
  C7: registering an email twice. The first call, with both stores working, succeeds
  and returns the API key just drawn, and stores the credential and the key record; the
  second call for the same email, whatever its password and whatever the stores do,
  fails with the 400 error and leaves both stores as they were.
\<close>

theorem register_twice:
  assumes "find_one (users db) e = None" and "mongo env1 = MongoOk" and "\<not> postgres_raises env1"
  shows "\<exists>response db1.
           register_user h env1 db \<lparr>req_email = e, req_password = pw1\<rparr> = (Inr response, db1)
         \<and> resp_api_key response = Some (token_hex env1)
         \<and> find_one (users db1) e = Some \<lparr>email = e, password = h (salt env1) pw1\<rparr>
         \<and> get_api_key_info (api_keys db1) (token_hex env1) \<noteq> None
         \<and> (\<forall>env2 pw2. register_user h env2 db1 \<lparr>req_email = e, req_password = pw2\<rparr>
                          = (Inl (HTTPException 400 ''User already exists or error creating user.''), db1))"
proof -
  let ?req = "\<lparr>req_email = e, req_password = pw1\<rparr>"
  obtain out db1 where r: "register_user h env1 db ?req = (out, db1)"
    by (cases "register_user h env1 db ?req")
  have fresh: "find_one (users db) (req_email ?req) = None" using assms(1) by simp
  note eq = register_fresh[OF fresh assms(2), of h]
  from eq r assms(3) obtain response where out: "out = Inr response"
    and key: "resp_api_key response = Some (token_hex env1)"
    by (auto simp: Let_def)
  have users1: "users db1 = users db @ [\<lparr>email = e, password = h (salt env1) pw1\<rparr>]"
    using eq r assms(3) by (auto simp: Let_def)
  have keys1: "api_keys db1 = api_keys db
      @ [\<lparr>api_key = token_hex env1, user_email = e,
           account_type = (if contains condition e then ''PREMIUM'' else ''FREEMIUM'')\<rparr>]"
    using eq r assms(3) by (auto simp: Let_def)
  have found: "find_one (users db1) e = Some \<lparr>email = e, password = h (salt env1) pw1\<rparr>"
    using assms(1) by (simp add: users1 find_one_def find_append)
  have row: "get_api_key_info (api_keys db1) (token_hex env1) \<noteq> None"
    by (simp add: keys1 get_api_key_info_def find_append split: option.splits)
  have again: "register_user h env2 db1 \<lparr>req_email = e, req_password = pw2\<rparr>
                 = (Inl (HTTPException 400 ''User already exists or error creating user.''), db1)"
    for env2 pw2
    using register_existing[of db1 "\<lparr>req_email = e, req_password = pw2\<rparr>" h env2] found
    by (simp add: user_exists_error_def)
  from r out key found row again show ?thesis by blast
qed

lemma example_register_alice:
  "register_user example_hash example_env empty_databases
      \<lparr>req_email = ''alice@example.com'', req_password = ''secret1''\<rparr>
    = (Inr \<lparr>resp_api_key = Some ''00112233445566778899aabbccddeeff'', resp_token = None,
            resp_message = Some registered_message, resp_account_type = Some ''FREEMIUM''\<rparr>,
       alice_registered)"
  by (simp add: register_user_def create_user_in_db_def insert_api_key_in_db_def find_one_def
      example_env_def empty_databases_def alice_registered_def example_hash_def condition_def Let_def)

theorem register_twice_witness:
  "find_one (users empty_databases) ''alice@example.com'' = None
   \<and> mongo example_env = MongoOk \<and> \<not> postgres_raises example_env
   \<and> register_user example_hash example_env empty_databases
        \<lparr>req_email = ''alice@example.com'', req_password = ''secret1''\<rparr>
      = (Inr \<lparr>resp_api_key = Some ''00112233445566778899aabbccddeeff'', resp_token = None,
              resp_message = Some registered_message, resp_account_type = Some ''FREEMIUM''\<rparr>,
         alice_registered)
   \<and> register_user example_hash failing_env alice_registered
        \<lparr>req_email = ''alice@example.com'', req_password = ''other''\<rparr>
      = (Inl (HTTPException 400 ''User already exists or error creating user.''), alice_registered)"
proof -
  have a: "find_one (users empty_databases) ''alice@example.com'' = None"
    by (simp add: empty_databases_def find_one_def)
  have b: "mongo example_env = MongoOk" and c: "\<not> postgres_raises example_env"
    by (simp_all add: example_env_def)
  from register_twice[OF a b c, of example_hash "''secret1''"] example_register_alice a b c
  show ?thesis by auto
qed

text \<open>
  C10: registration is not atomic across its two stores. When the insertion of the API
  key fails after the credential was stored, \<open>insert_api_key_in_db\<close> returns its empty
  result, building the response fails and no key is returned, while the credential
  stays. After any further registration calls the email still has no API key record,
  and a retry for it fails with the 400 error of an existing user.
\<close>

theorem registration_not_atomic:
  assumes "find_one (users db) e = None" and "mongo env1 = MongoOk" and "postgres_raises env1"
    and "\<forall>row \<in> set (api_keys db). user_email row \<noteq> e"
  shows "\<exists>db1.
           register_user h env1 db \<lparr>req_email = e, req_password = pw\<rparr>
             = (Inl (Unhandled (IndexError ''string index out of range'')), db1)
         \<and> fst (insert_api_key_in_db env1 db1 e) = None
         \<and> find_one (users db1) e = Some \<lparr>email = e, password = h (salt env1) pw\<rparr>
         \<and> api_keys db1 = api_keys db
         \<and> (\<forall>calls env2 pw2.
               (\<forall>row \<in> set (api_keys (register_all h db1 calls)). user_email row \<noteq> e)
             \<and> register_user h env2 (register_all h db1 calls) \<lparr>req_email = e, req_password = pw2\<rparr>
                 = (Inl (HTTPException 400 ''User already exists or error creating user.''),
                    register_all h db1 calls))"
proof -
  let ?req = "\<lparr>req_email = e, req_password = pw\<rparr>"
  let ?db1 = "db\<lparr>users := users db @ [\<lparr>email = e, password = h (salt env1) pw\<rparr>]\<rparr>"
  have fresh: "find_one (users db) (req_email ?req) = None" using assms(1) by simp
  have first: "register_user h env1 db ?req
                 = (Inl (Unhandled (IndexError ''string index out of range'')), ?db1)"
    using register_fresh[OF fresh assms(2), of h] assms(3) by (simp add: Let_def)
  have empty: "fst (insert_api_key_in_db env1 ?db1 e) = None"
    using assms(3) by (simp add: insert_api_key_in_db_def)
  have found: "find_one (users ?db1) e = Some \<lparr>email = e, password = h (salt env1) pw\<rparr>"
    using assms(1) by (simp add: find_one_def find_append)
  have keys: "api_keys ?db1 = api_keys db" by simp
  have later: "(\<forall>row \<in> set (api_keys (register_all h ?db1 calls)). user_email row \<noteq> e)
             \<and> register_user h env2 (register_all h ?db1 calls) \<lparr>req_email = e, req_password = pw2\<rparr>
                 = (Inl (HTTPException 400 ''User already exists or error creating user.''),
                    register_all h ?db1 calls)" for calls env2 pw2
  proof -
    have ex: "find_one (users ?db1) e \<noteq> None" using found by simp
    have nokey: "\<forall>row \<in> set (api_keys ?db1). user_email row \<noteq> e" using assms(4) by simp
    note inv = register_all_keeps[where db="?db1" and e=e and h=h and calls=calls, OF ex nokey]
    from inv have "find_one (users (register_all h ?db1 calls)) (req_email \<lparr>req_email = e, req_password = pw2\<rparr>) \<noteq> None"
      by simp
    from register_existing[OF this, of h env2] inv show ?thesis
      by (simp add: user_exists_error_def)
  qed
  from first empty found keys later show ?thesis by blast
qed

lemma example_register_fails:
  "register_user example_hash failing_env empty_databases
      \<lparr>req_email = ''alice@example.com'', req_password = ''secret1''\<rparr>
    = (Inl (Unhandled (IndexError ''string index out of range'')), alice_without_key)"
  by (simp add: register_user_def create_user_in_db_def insert_api_key_in_db_def find_one_def
      failing_env_def empty_databases_def alice_without_key_def example_hash_def Let_def)

theorem registration_not_atomic_witness:
  "find_one (users empty_databases) ''alice@example.com'' = None
   \<and> mongo failing_env = MongoOk \<and> postgres_raises failing_env
   \<and> api_keys empty_databases = []
   \<and> register_user example_hash failing_env empty_databases
        \<lparr>req_email = ''alice@example.com'', req_password = ''secret1''\<rparr>
      = (Inl (Unhandled (IndexError ''string index out of range'')), alice_without_key)
   \<and> api_keys (register_all example_hash alice_without_key
        [(example_env, \<lparr>req_email = ''alice@example.com'', req_password = ''secret1''\<rparr>)]) = []
   \<and> register_user example_hash example_env alice_without_key
        \<lparr>req_email = ''alice@example.com'', req_password = ''secret1''\<rparr>
      = (Inl (HTTPException 400 ''User already exists or error creating user.''), alice_without_key)"
proof -
  have a: "find_one (users empty_databases) ''alice@example.com'' = None"
    by (simp add: empty_databases_def find_one_def)
  have b: "mongo failing_env = MongoOk" and c: "postgres_raises failing_env"
    by (simp_all add: failing_env_def)
  have d: "\<forall>row \<in> set (api_keys empty_databases). user_email row \<noteq> ''alice@example.com''"
    by (simp add: empty_databases_def)
  from registration_not_atomic[OF a b c d, of example_hash "''secret1''"] example_register_fails
  obtain db1 where db1: "db1 = alice_without_key"
    and later: "\<And>calls env2 pw2. register_user example_hash env2 (register_all example_hash db1 calls)
                  \<lparr>req_email = ''alice@example.com'', req_password = pw2\<rparr>
                 = (Inl (HTTPException 400 ''User already exists or error creating user.''),
                    register_all example_hash db1 calls)"
    by auto
  have retry: "register_user example_hash example_env alice_without_key
        \<lparr>req_email = ''alice@example.com'', req_password = ''secret1''\<rparr>
      = (Inl (HTTPException 400 ''User already exists or error creating user.''), alice_without_key)"
    using later[of example_env "[]" "''secret1''"] db1 by simp
  then have "register_all example_hash alice_without_key
        [(example_env, \<lparr>req_email = ''alice@example.com'', req_password = ''secret1''\<rparr>)]
          = alice_without_key"
    by simp
  with retry a b c example_register_fails show ?thesis
    by (simp add: empty_databases_def alice_without_key_def)
qed

section \<open>Properties of the token check\<close>

lemma split_on_nonempty: "split_on c s \<noteq> []"
  by (induction s) (auto split: list.splits)

lemma split_on_bearer:
  assumes "prefix ''Bearer '' h"
  shows "\<exists>token rest. split_on CHR '' '' h = ''Bearer'' # token # rest"
proof -
  from assms obtain t where h: "h = ''Bearer '' @ t" by (auto simp: prefix_def)
  obtain token rest where "split_on CHR '' '' t = token # rest"
    using split_on_nonempty[of "CHR '' ''" t] by (cases "split_on CHR '' '' t") auto
  then show ?thesis unfolding h by simp
qed

lemma jwt_decode_bad_signature:
  assumes "\<not> signature_verifies W k token"
  shows "jwt_decode W now token (Some k) [''HS256'']
           \<in> {Inl DecodeError, Inl InvalidAlgorithmError, Inl InvalidSignatureError}"
  using assms
  by (auto simp: jwt_decode_def signature_verifies_def split: option.splits)

text \<open>
  C8: a bearer token whose signature does not verify against the secret is rejected
  with the 401 error \<open>Invalid JWT Token.\<close>, at every time and whatever expiry its
  payload claims: the signature is checked before the claims are read, so such a token
  is neither reported as expired nor accepted, and the request ends there with the
  store untouched.
\<close>

theorem tampered_token_is_invalid:
  assumes "prefix ''Bearer '' h" and "bearer_token h = Some token"
    and "\<not> signature_verifies W k token" and "authorization req = Some h"
  shows "validate_jwt W (Some k) now (Some h) = Inl (HTTPException 401 ''Invalid JWT Token.'')
       \<and> similarity_service W J m (Some k) rows now r req
           = (Inl (HTTPException 401 ''Invalid JWT Token.''), r)"
proof -
  from assms(2) obtain x rest where sp: "split_on CHR '' '' h = x # token # rest"
    by (auto simp: bearer_token_def split: list.splits)
  have ne: "h \<noteq> []" using assms(1) by auto
  have v: "validate_jwt W (Some k) now (Some h) = Inl (HTTPException 401 ''Invalid JWT Token.'')"
    using jwt_decode_bad_signature[OF assms(3), of now] assms(1) ne
    by (auto simp: validate_jwt_def sp)
  then show ?thesis using assms(4)
    by (simp add: similarity_service_def admission_def)
qed

lemma example_jwt_simps:
  "jwt_load example_jwt ''tampered'' = Some (example_segments ''forged'')"
  "jwt_load example_jwt ''good'' = Some (example_segments ''topsecret|hdr.body'')"
  "hmac_sha256 example_jwt k msg = k @ ''|'' @ msg"
  by (simp_all add: example_jwt_def)

lemma example_segments_simps:
  "alg (example_segments s) = Some ''HS256''"
  "signing_input (example_segments s) = ''hdr.body''"
  "signature (example_segments s) = s"
  "payload (example_segments s) = Some \<lparr>sub_claim = Some ''alice@example.com'', exp_claim = Some 2000000000\<rparr>"
  by (simp_all add: example_segments_def)

theorem tampered_token_is_invalid_witness:
  "prefix ''Bearer '' ''Bearer tampered''
   \<and> bearer_token ''Bearer tampered'' = Some ''tampered''
   \<and> \<not> signature_verifies example_jwt ''topsecret'' ''tampered''
   \<and> exp_claim (the (payload (the (jwt_load example_jwt ''tampered'')))) = Some 2000000000
   \<and> validate_jwt example_jwt (Some ''topsecret'') 1700000000 (Some ''Bearer tampered'')
        = Inl (HTTPException 401 ''Invalid JWT Token.'')
   \<and> similarity_service example_jwt example_json example_model (Some ''topsecret'') example_rows
        1700000000 Map.empty (example_request ''tampered'' (PyInt 0))
        = (Inl (HTTPException 401 ''Invalid JWT Token.''), Map.empty)"
proof -
  have a: "prefix ''Bearer '' ''Bearer tampered''" by simp
  have b: "bearer_token ''Bearer tampered'' = Some ''tampered''"
    by (simp add: bearer_token_def)
  have c: "\<not> signature_verifies example_jwt ''topsecret'' ''tampered''"
    by (simp add: signature_verifies_def example_jwt_simps example_segments_simps)
  have d: "authorization (example_request ''tampered'' (PyInt 0)) = Some ''Bearer tampered''"
    by (simp add: example_request_def)
  from tampered_token_is_invalid[OF a b c d] a b c
  show ?thesis by (simp add: example_jwt_simps example_segments_simps)
qed

section \<open>Properties of the result cache\<close>

subsection \<open>Cache entries and counters\<close>

lemma digit_char_not_bracket: "d < 10 \<Longrightarrow> digit_char d \<noteq> CHR ''[''"
proof -
  assume "d < 10"
  then consider "d = 0" | "d = 1" | "d = 2" | "d = 3" | "d = 4" | "d = 5" | "d = 6" | "d = 7"
    | "d = 8" | "d = 9" by atomize_elim arith
  then show ?thesis
    by cases (simp_all add: digit_char_def)
qed

lemma hd_str_nat_not_bracket: "hd (str_nat n) \<noteq> CHR ''[''"
proof (induction n rule: str_nat.induct)
  case (1 n)
  show ?case
  proof (cases "n < 10")
    case True
    then show ?thesis by (subst str_nat.simps) (simp add: digit_char_not_bracket)
  next
    case False
    with 1 show ?thesis
      by (subst str_nat.simps) (simp add: str_nat_nonempty)
  qed
qed

lemma hd_str_int_not_bracket: "hd (str_int n) \<noteq> CHR ''[''"
  by (simp add: str_int_def hd_str_nat_not_bracket)

lemma counter_is_not_cache_entry: "is_counter e \<Longrightarrow> \<not> is_cache_entry e"
  by (auto simp: is_counter_def is_cache_entry_def hd_str_int_not_bracket)

lemma cache_entry_not_integer: "is_cache_entry e \<Longrightarrow> string2ll (content e) = None"
proof (rule ccontr)
  assume c: "is_cache_entry e" and "string2ll (content e) \<noteq> None"
  then obtain n where "string2ll (content e) = Some n" by auto
  then have "content e = str_int n" by (rule string2ll_canonical)
  with c hd_str_int_not_bracket[of n] show False by (simp add: is_cache_entry_def)
qed

lemma cache_entry_live: "is_cache_entry e \<Longrightarrow> r k = Some e \<Longrightarrow> redis_live now r k = Some e"
  by (simp add: redis_live_def is_cache_entry_def)

lemma json_dumps_shape: "json_dumps J res \<noteq> [] \<and> hd (json_dumps J res) = CHR ''[''"
  by (simp add: json_dumps_def)

lemma dumped_is_cache_entry: "is_cache_entry \<lparr>content = json_dumps J res, expires_at = None\<rparr>"
  using json_dumps_shape[of J res] by (simp add: is_cache_entry_def)

subsection \<open>What the rate limiter does to the other entries\<close>

lemma redis_incr_cache_entry:
  "r rk = Some e \<Longrightarrow> is_cache_entry e \<Longrightarrow> \<exists>x. redis_incr now r rk = Inl x"
  by (simp add: redis_incr_def cache_entry_live cache_entry_not_integer)

lemma check_rate_limit_keeps:
  assumes "r key = Some e" and "is_cache_entry e"
  shows "snd (check_rate_limit now r k tier) key = Some e"
proof (cases "key = usage_key k (current_minute now)")
  case True
  with redis_incr_cache_entry[OF _ assms(2), of r key now] assms(1)
  obtain x where "redis_incr now r (usage_key k (current_minute now)) = Inl x" by auto
  then show ?thesis using assms(1) by (simp add: check_rate_limit_def Let_def)
next
  case False
  show ?thesis
  proof (cases "redis_incr now r (usage_key k (current_minute now))")
    case (Inl x)
    then show ?thesis using assms(1) by (simp add: check_rate_limit_def Let_def)
  next
    case (Inr p)
    obtain n r1 where p: "p = (n, r1)" by (cases p)
    have "r1 key = r key" using redis_incr_other[OF Inr[unfolded p] False] .
    then show ?thesis using assms(1) False Inr p
      by (simp add: check_rate_limit_def Let_def redis_expire_other)
  qed
qed

lemma check_rate_limit_admitted_key:
  assumes "r key = Some e" and "is_cache_entry e"
    and "check_rate_limit now r k tier = (Inr u, r')"
  shows "key \<noteq> usage_key k (current_minute now)"
proof
  assume "key = usage_key k (current_minute now)"
  with redis_incr_cache_entry[OF _ assms(2), of r key now] assms(1)
  obtain x where "redis_incr now r (usage_key k (current_minute now)) = Inl x" by auto
  with assms(3) show False by (simp add: check_rate_limit_def Let_def)
qed

lemma admission_keeps:
  assumes "r key = Some e" and "is_cache_entry e"
  shows "snd (admission W secret rows now r req) key = Some e"
  using assms check_rate_limit_keeps[where r=r and key=key and e=e, OF assms]
  by (simp add: admission_def split: sum.splits)

subsection \<open>Well-formed stores\<close>

lemma store_wf_upd:
  "store_wf r \<Longrightarrow> is_counter e \<or> is_cache_entry e \<Longrightarrow> store_wf (r(k \<mapsto> e))"
  by (simp add: store_wf_def)

lemma store_wf_incr:
  assumes "store_wf r" and "redis_incr now r rk = Inr (n, r1)"
  shows "store_wf r1" and "\<exists>e. r1 rk = Some e \<and> is_counter e"
proof -
  have "store_wf r1 \<and> (\<exists>e. r1 rk = Some e \<and> is_counter e)"
  proof (cases "redis_live now r rk")
    case None
    with assms(2) have "r1 = r(rk \<mapsto> \<lparr>content = str_int 1, expires_at = None\<rparr>)"
      by (simp add: redis_incr_def)
    moreover have "is_counter \<lparr>content = str_int 1, expires_at = None\<rparr>"
      by (auto simp: is_counter_def)
    ultimately show ?thesis using assms(1) by (simp add: store_wf_upd)
  next
    case (Some e)
    with assms(2) obtain c where "r1 = r(rk \<mapsto> e\<lparr>content := str_int (c + 1)\<rparr>)"
      by (auto simp: redis_incr_def split: option.splits if_splits)
    moreover have "is_counter (e\<lparr>content := str_int (c + 1)\<rparr>)"
      by (auto simp: is_counter_def)
    ultimately show ?thesis using assms(1) by (simp add: store_wf_upd)
  qed
  then show "store_wf r1" and "\<exists>e. r1 rk = Some e \<and> is_counter e" by simp_all
qed

lemma store_wf_expire:
  assumes "store_wf r" and "r rk = Some e" and "is_counter e"
  shows "store_wf (redis_expire now r rk s)"
proof (cases "redis_live now r rk")
  case None
  then show ?thesis using assms(1) by (simp add: redis_expire_def)
next
  case (Some e')
  then have "e' = e" using assms(2) by (auto simp: redis_live_def split: option.splits if_splits)
  moreover have "is_counter (e\<lparr>expires_at := Some (now + s)\<rparr>)"
    using assms(3) by (simp add: is_counter_def)
  ultimately show ?thesis using assms(1) Some by (simp add: redis_expire_def store_wf_upd)
qed

lemma store_wf_check_rate_limit:
  assumes "store_wf r"
  shows "store_wf (snd (check_rate_limit now r k tier))"
proof (cases "redis_incr now r (usage_key k (current_minute now))")
  case (Inl x)
  then show ?thesis using assms by (simp add: check_rate_limit_def Let_def)
next
  case (Inr p)
  obtain n r1 where p: "p = (n, r1)" by (cases p)
  note i = store_wf_incr[OF assms Inr[unfolded p]]
  from i(2) obtain e where e: "r1 (usage_key k (current_minute now)) = Some e" "is_counter e"
    by blast
  have "store_wf (redis_expire now r1 (usage_key k (current_minute now)) 60)"
    by (rule store_wf_expire[OF i(1) e])
  with i(1) show ?thesis using Inr p by (simp add: check_rate_limit_def Let_def)
qed

lemma store_wf_admission:
  "store_wf r \<Longrightarrow> store_wf (snd (admission W secret rows now r req))"
  using store_wf_check_rate_limit[of r now "req_api_key req"]
  by (simp add: admission_def split: sum.splits)

subsection \<open>The cache steps\<close>

lemma cache_hit:
  assumes "encode_key (req_entity_input req) = Inr key" and "r key = Some e"
    and "is_cache_entry e" and "decode_cached J (content e) = Inr res"
  shows "cached_or_ranked J m now r req = (Inr \<lparr>cache = True, result = res\<rparr>, r)"
proof -
  have get: "redis_get now r key = Some (content e)"
    using cache_entry_live[where r=r, OF assms(3,2)] by (simp add: redis_get_def)
  have ne: "content e \<noteq> []" using assms(3) by (simp add: is_cache_entry_def)
  from assms(4) obtain v where v: "json_loads J (content e) = Inr v" "validate_result J v = Inr res"
    by (auto simp: decode_cached_def split: sum.splits)
  show ?thesis
    by (simp add: cached_or_ranked_def get_cached_results_def assms(1) get ne v)
qed

lemma cached_or_ranked_keeps:
  assumes "r key = Some e" and "is_cache_entry e"
  shows "snd (cached_or_ranked J m now r req) key = Some e"
proof (cases "encode_key (req_entity_input req)")
  case (Inl x)
  then show ?thesis using assms(1) by (simp add: cached_or_ranked_def get_cached_results_def)
next
  case (Inr k')
  show ?thesis
  proof (cases "k' = key")
    case True
    have get: "redis_get now r key = Some (content e)"
      using cache_entry_live[where r=r, OF assms(2,1)] by (simp add: redis_get_def)
    have ne: "content e \<noteq> []" using assms(2) by (simp add: is_cache_entry_def)
    show ?thesis using assms(1) Inr True get ne
      by (simp add: cached_or_ranked_def get_cached_results_def split: sum.splits)
  next
    case False
    then show ?thesis using assms(1) Inr
      by (auto simp: cached_or_ranked_def get_cached_results_def set_cached_results_def
          redis_set_def Let_def split: sum.splits option.splits)
  qed
qed

text \<open>
  An entry holding a cached result is kept as it is by every later call: the rate limiter
  cannot increment it, a lookup finds it, and a store under another key leaves it alone.
\<close>

lemma service_keeps:
  assumes "r key = Some e" and "is_cache_entry e"
  shows "snd (similarity_service W J m secret rows now r req) key = Some e"
proof -
  obtain out r1 where a: "admission W secret rows now r req = (out, r1)"
    by (cases "admission W secret rows now r req")
  have r1: "r1 key = Some e"
    using admission_keeps[where r=r and key=key and e=e, OF assms, of W secret rows now req] a by simp
  show ?thesis
  proof (cases out)
    case (Inl f)
    then show ?thesis using a r1 by (simp add: similarity_service_def)
  next
    case (Inr u)
    then show ?thesis
      using a cached_or_ranked_keeps[where r=r1 and key=key and e=e, OF r1 assms(2), of J m now req]
      by (simp add: similarity_service_def)
  qed
qed

lemma service_all_keeps:
  assumes "r key = Some e" and "is_cache_entry e"
  shows "service_all W J m secret rows r calls key = Some e"
  using assms(1)
proof (induction calls arbitrary: r)
  case Nil
  then show ?case by simp
next
  case (Cons call calls)
  obtain now req where call: "call = (now, req)" by (cases call)
  have "snd (similarity_service W J m secret rows now r req) key = Some e"
    by (rule service_keeps[where r=r, OF Cons.prems assms(2)])
  then show ?case unfolding call service_all.simps
    by (rule Cons.IH[where r="snd (similarity_service W J m secret rows now r req)"])
qed

text \<open>
  The service keeps the store well formed; the empty store is well formed.
\<close>

lemma store_wf_cached_or_ranked:
  assumes "store_wf r"
  shows "store_wf (snd (cached_or_ranked J m now r req))"
proof -
  have "snd (cached_or_ranked J m now r req) = r
      \<or> (\<exists>key res. snd (cached_or_ranked J m now r req) = redis_set r key (json_dumps J res))"
    by (auto simp: cached_or_ranked_def set_cached_results_def Let_def
        split: sum.splits option.splits)
  then show ?thesis
  proof
    assume "snd (cached_or_ranked J m now r req) = r"
    with assms show ?thesis by simp
  next
    assume "\<exists>key res. snd (cached_or_ranked J m now r req) = redis_set r key (json_dumps J res)"
    then obtain key res where
      "snd (cached_or_ranked J m now r req) = redis_set r key (json_dumps J res)" by blast
    then show ?thesis
      using store_wf_upd[OF assms, of "\<lparr>content = json_dumps J res, expires_at = None\<rparr>" key]
        dumped_is_cache_entry[of J res]
      by (simp add: redis_set_def)
  qed
qed

lemma store_wf_service:
  assumes "store_wf r"
  shows "store_wf (snd (similarity_service W J m secret rows now r req))"
proof -
  obtain out r1 where a: "admission W secret rows now r req = (out, r1)"
    by (cases "admission W secret rows now r req")
  have r1: "store_wf r1" using store_wf_admission[OF assms, of W secret rows now req] a by simp
  show ?thesis
  proof (cases out)
    case (Inl f)
    then show ?thesis using a r1 by (simp add: similarity_service_def)
  next
    case (Inr u)
    then show ?thesis using a store_wf_cached_or_ranked[OF r1, of J m now req]
      by (simp add: similarity_service_def)
  qed
qed

lemma store_wf_service_all:
  "store_wf r \<Longrightarrow> store_wf (service_all W J m secret rows r calls)"
proof (induction calls arbitrary: r)
  case Nil
  then show ?case by simp
next
  case (Cons call calls)
  obtain now req where call: "call = (now, req)" by (cases call)
  show ?case unfolding call service_all.simps
    by (rule Cons.IH) (rule store_wf_service[OF Cons.prems])
qed

lemma store_wf_empty: "store_wf Map.empty"
  by (simp add: store_wf_def)

text \<open>
  After a successful call the key of its input holds a cache entry that decodes to the
  result of the call.
\<close>

lemma successful_call_leaves_entry:
  assumes wf: "store_wf r"
    and counters: "\<forall>n. isl (decode_cached J (str_int n))"
    and first: "similarity_service W J m secret rows now r req = (Inr resp, r1)"
    and roundtrip: "decode_cached J (json_dumps J (result resp)) = Inr (result resp)"
  shows "\<exists>key e. encode_key (req_entity_input req) = Inr key \<and> r1 key = Some e
            \<and> is_cache_entry e \<and> decode_cached J (content e) = Inr (result resp)"
proof -
  obtain out ra where a: "admission W secret rows now r req = (out, ra)"
    by (cases "admission W secret rows now r req")
  from first a obtain u where out: "out = Inr u"
    by (cases out) (simp_all add: similarity_service_def)
  from first a out have c: "cached_or_ranked J m now ra req = (Inr resp, r1)"
    by (simp add: similarity_service_def)
  have wfa: "store_wf ra" using store_wf_admission[OF wf, of W secret rows now req] a by simp
  from c obtain key where key: "encode_key (req_entity_input req) = Inr key"
    by (cases "encode_key (req_entity_input req)")
       (simp_all add: cached_or_ranked_def get_cached_results_def)
  show ?thesis
  proof (cases "get_cached_results J now ra (req_entity_input req)")
    case (Inl x)
    with c show ?thesis by (simp add: cached_or_ranked_def)
  next
    case (Inr found)
    show ?thesis
    proof (cases found)
      case None
      with c Inr key obtain probability where
        p: "resp = \<lparr>cache = False, result = probability\<rparr>"
           "r1 = redis_set ra key (json_dumps J probability)"
        by (auto simp: cached_or_ranked_def set_cached_results_def Let_def split: sum.splits)
      have "r1 key = Some \<lparr>content = json_dumps J (result resp), expires_at = None\<rparr>"
        using p by (simp add: redis_set_def)
      with key dumped_is_cache_entry[of J "result resp"] roundtrip show ?thesis by auto
    next
      case (Some v)
      with c Inr have v: "validate_result J v = Inr (result resp)" and r1: "r1 = ra"
        by (auto simp: cached_or_ranked_def split: sum.splits)
      from Inr Some key obtain s where s: "redis_get now ra key = Some s" "json_loads J s = Inr v"
        by (auto simp: get_cached_results_def split: option.splits if_splits sum.splits)
      then obtain e where e: "ra key = Some e" "content e = s"
        by (auto simp: redis_get_def redis_live_def split: option.splits if_splits)
      have dec: "decode_cached J (content e) = Inr (result resp)"
        using s(2) v e(2) by (simp add: decode_cached_def)
      have "\<not> is_counter e"
      proof
        assume "is_counter e"
        then obtain n where "content e = str_int n" by (auto simp: is_counter_def)
        with counters[rule_format, of n] dec show False by simp
      qed
      with wfa e(1) have "is_cache_entry e" by (auto simp: store_wf_def)
      with key e(1) dec r1 show ?thesis by auto
    qed
  qed
qed

text \<open>
  C6: after a successful call, a later call with the same raw entity input that passes
  the token check, the API key check and the rate limit returns \<open>cache=True\<close> with
  the result of the first call, also when other calls were served in between. The store
  is one the service itself has written (counters and cached results); the JSON
  library reads back what \<open>json.dumps\<close> wrote for this result and does not read a
  counter as a result list.
\<close>

theorem repeated_call_is_served_from_cache:
  assumes wf: "store_wf r"
    and counters: "\<forall>n. isl (decode_cached J (str_int n))"
    and first: "similarity_service W J m secret rows now1 r req1 = (Inr resp1, r1)"
    and roundtrip: "decode_cached J (json_dumps J (result resp1)) = Inr (result resp1)"
    and between: "r2 = service_all W J m secret rows r1 calls"
    and admitted: "admission W secret rows now2 r2 req2 = (Inr (), r3)"
    and same: "req_entity_input req2 = req_entity_input req1"
  shows "similarity_service W J m secret rows now2 r2 req2
           = (Inr \<lparr>cache = True, result = result resp1\<rparr>, r3)"
proof -
  from successful_call_leaves_entry[OF wf counters first roundtrip]
  obtain key e where key: "encode_key (req_entity_input req1) = Inr key"
    and e: "r1 key = Some e" "is_cache_entry e"
    and dec: "decode_cached J (content e) = Inr (result resp1)"
    by blast
  have r2: "r2 key = Some e"
    unfolding between by (rule service_all_keeps[where r=r1, OF e])
  have r3: "r3 key = Some e"
    using admission_keeps[where r=r2 and key=key and e=e, OF r2 e(2), of W secret rows now2 req2]
      admitted by simp
  have "cached_or_ranked J m now2 r3 req2 = (Inr \<lparr>cache = True, result = result resp1\<rparr>, r3)"
    by (rule cache_hit[where key=key and e=e]) (simp_all add: same key r3 e(2) dec)
  then show ?thesis using admitted by (simp add: similarity_service_def)
qed

lemma cache_miss:
  assumes "encode_key (req_entity_input req) = Inr key" and "redis_get now r key = None"
    and "predict_similarity m (req_entity_input req) 5 10 = Inr res"
  shows "cached_or_ranked J m now r req
           = (Inr \<lparr>cache = False, result = res\<rparr>, redis_set r key (json_dumps J res))"
  using assms
  by (simp add: cached_or_ranked_def get_cached_results_def set_cached_results_def Let_def)

subsection \<open>The scenario, step by step\<close>

lemma example_validate_jwt:
  "validate_jwt example_jwt (Some ''topsecret'') 1700000000 (Some ''Bearer good'') = Inr ()"
  "validate_jwt example_jwt (Some ''topsecret'') 1700000030 (Some ''Bearer good'') = Inr ()"
  by (simp_all add: validate_jwt_def jwt_decode_def example_jwt_simps example_segments_simps)

lemma example_validate_api_key:
  "validate_api_key example_rows ''key1''
     = Inr \<lparr>api_key = ''key1'', user_email = ''alice@example.com'', account_type = ''FREEMIUM''\<rparr>"
  by (simp add: validate_api_key_def get_api_key_info_def example_rows_def)

lemma example_minutes:
  "current_minute 1700000000 = 28333333" "current_minute 1700000030 = 28333333"
  by (simp_all add: current_minute_def)

lemma example_admission_first:
  "admission example_jwt (Some ''topsecret'') example_rows 1700000000 Map.empty
      (example_request ''good'' v)
    = (Inr (), [usage_key ''key1'' 28333333 \<mapsto> example_counter 1])"
  using check_rate_limit_first[where r=Map.empty and k="''key1''" and w=28333333
      and t=1700000000 and tier="''FREEMIUM''"]
  by (simp add: admission_def example_request_def example_validate_jwt example_validate_api_key
      example_minutes rate_limit_def example_counter_def)

lemma usage_key_not_digits: "usage_key k w \<noteq> str_int 0" "usage_key k w \<noteq> str_int 7"
  by (simp_all add: usage_key_def str_int_def str_nat.simps digit_char_def)

lemma example_json_simps:
  "dumps_str example_json s = s"
  "float_repr example_json (- 1) = ''-1.0''"
  "float_repr example_json (1 / 10) = ''0.1''"
  "float_repr example_json (3 / 10) = ''0.3''"
  "json_loads example_json ranked_text = Inr [(''site_a'', 1 / 10), (''site_c'', 3 / 10)]"
  "s \<noteq> ranked_text \<Longrightarrow> s \<noteq> sentinel_text
     \<Longrightarrow> json_loads example_json s = Inl (JSONDecodeError ''Expecting value'')"
  "validate_result example_json v = Inr v"
  by (simp_all add: example_json_def)

lemma example_json_dumps:
  "json_dumps example_json [(''site_a'', 1 / 10), (''site_c'', 3 / 10)] = ranked_text"
  "json_dumps example_json [(msg_id_not_found ''7'', - 1)] = sentinel_text"
  by (simp_all add: json_dumps_def example_json_simps ranked_text_def sentinel_text_def
      msg_id_not_found_def)

lemma example_sentinel:
  "predict_similarity example_model (PyInt 7) 5 10 = Inr [(msg_id_not_found ''7'', - 1)]"
  by (simp add: predict_similarity_def validate_input_def example_model_simps
      str_int_def str_nat.simps digit_char_def)

lemma example_first_call:
  "similarity_service example_jwt example_json example_model (Some ''topsecret'') example_rows
      1700000000 Map.empty (example_request ''good'' (PyInt 0))
    = (Inr \<lparr>cache = False, result = [(''site_a'', 1 / 10), (''site_c'', 3 / 10)]\<rparr>,
       [usage_key ''key1'' 28333333 \<mapsto> example_counter 1,
        str_int 0 \<mapsto> \<lparr>content = ranked_text, expires_at = None\<rparr>])"
proof -
  let ?ra = "[usage_key ''key1'' 28333333 \<mapsto> example_counter 1]"
  have key: "encode_key (req_entity_input (example_request ''good'' (PyInt 0))) = Inr (str_int 0)"
    by (simp add: encode_key_def example_request_def)
  have none: "redis_get 1700000000 ?ra (str_int 0) = None"
    using usage_key_not_digits(1)[of "''key1''" 28333333]
    by (auto simp: redis_get_def redis_live_def)
  have rank: "predict_similarity example_model
      (req_entity_input (example_request ''good'' (PyInt 0))) 5 10
        = Inr [(''site_a'', 1 / 10), (''site_c'', 3 / 10)]"
    by (simp add: example_request_def example_predict)
  show ?thesis
    by (simp add: similarity_service_def example_admission_first
        cache_miss[where key="str_int 0", OF key none rank] redis_set_def example_json_dumps)
qed

lemma example_failed_call:
  "similarity_service example_jwt example_json example_model (Some ''topsecret'') example_rows
      1700000000 Map.empty (example_request ''good'' (PyInt 7))
    = (Inr \<lparr>cache = False, result = [(msg_id_not_found ''7'', - 1)]\<rparr>,
       [usage_key ''key1'' 28333333 \<mapsto> example_counter 1,
        str_int 7 \<mapsto> \<lparr>content = sentinel_text, expires_at = None\<rparr>])"
proof -
  let ?ra = "[usage_key ''key1'' 28333333 \<mapsto> example_counter 1]"
  have key: "encode_key (req_entity_input (example_request ''good'' (PyInt 7))) = Inr (str_int 7)"
    by (simp add: encode_key_def example_request_def)
  have none: "redis_get 1700000000 ?ra (str_int 7) = None"
    using usage_key_not_digits(2)[of "''key1''" 28333333]
    by (auto simp: redis_get_def redis_live_def)
  have rank: "predict_similarity example_model
      (req_entity_input (example_request ''good'' (PyInt 7))) 5 10
        = Inr [(msg_id_not_found ''7'', - 1)]"
    by (simp add: example_request_def example_sentinel)
  show ?thesis
    by (simp add: similarity_service_def example_admission_first
        cache_miss[where key="str_int 7", OF key none rank] redis_set_def example_json_dumps)
qed

lemma example_admission_second:
  "admission example_jwt (Some ''topsecret'') example_rows 1700000030
      [usage_key ''key1'' 28333333 \<mapsto> example_counter 1,
       str_int 0 \<mapsto> \<lparr>content = ranked_text, expires_at = None\<rparr>]
      (example_request ''good'' v)
    = (Inr (), [usage_key ''key1'' 28333333 \<mapsto> example_counter 1,
                str_int 0 \<mapsto> \<lparr>content = ranked_text, expires_at = None\<rparr>,
                usage_key ''key1'' 28333333 \<mapsto> example_counter 2])"
proof -
  let ?r1 = "[usage_key ''key1'' 28333333 \<mapsto> example_counter 1,
       str_int 0 \<mapsto> \<lparr>content = ranked_text, expires_at = None\<rparr>]"
  have c: "?r1 (usage_key ''key1'' 28333333)
             = Some \<lparr>content = str_int 1, expires_at = Some (1700000000 + 60)\<rparr>"
    using usage_key_not_digits(1)[of "''key1''" 28333333] by (simp add: example_counter_def)
  have "check_rate_limit 1700000030 ?r1 ''key1'' ''FREEMIUM''
          = (Inr (), ?r1(usage_key ''key1'' 28333333 \<mapsto> example_counter 2))"
    using check_rate_limit_next[where r="?r1" and k="''key1''" and w=28333333 and c=1
        and e="1700000000 + 60" and t=1700000030 and tier="''FREEMIUM''", OF c]
    by (simp add: example_minutes rate_limit_def example_counter_def)
  then show ?thesis
    by (simp add: admission_def example_request_def example_validate_jwt example_validate_api_key)
qed

lemma example_counters_do_not_decode: "\<forall>n. isl (decode_cached example_json (str_int n))"
proof
  fix n
  have "str_int n \<noteq> ranked_text" "str_int n \<noteq> sentinel_text"
    using hd_str_int_not_bracket[of n] by (auto simp: ranked_text_def sentinel_text_def)
  then show "isl (decode_cached example_json (str_int n))"
    by (simp add: decode_cached_def example_json_simps)
qed

lemma example_roundtrip:
  "decode_cached example_json (json_dumps example_json [(''site_a'', 1 / 10), (''site_c'', 3 / 10)])
     = Inr [(''site_a'', 1 / 10), (''site_c'', 3 / 10)]"
  by (simp add: example_json_dumps decode_cached_def example_json_simps)

theorem repeated_call_is_served_from_cache_witness:
  "store_wf Map.empty
   \<and> fst (similarity_service example_jwt example_json example_model (Some ''topsecret'')
           example_rows 1700000000 Map.empty (example_request ''good'' (PyInt 0)))
       = Inr \<lparr>cache = False, result = [(''site_a'', 1 / 10), (''site_c'', 3 / 10)]\<rparr>
   \<and> fst (similarity_service example_jwt example_json example_model (Some ''topsecret'')
           example_rows 1700000030
           (snd (similarity_service example_jwt example_json example_model (Some ''topsecret'')
                  example_rows 1700000000 Map.empty (example_request ''good'' (PyInt 0))))
           (example_request ''good'' (PyInt 0)))
       = Inr \<lparr>cache = True, result = [(''site_a'', 1 / 10), (''site_c'', 3 / 10)]\<rparr>"
proof -
  have wf: "store_wf Map.empty" by (simp add: store_wf_def)
  have rt: "decode_cached example_json
      (json_dumps example_json
         (result \<lparr>cache = False, result = [(''site_a'', 1 / 10), (''site_c'', 3 / 10)]\<rparr>))
     = Inr (result \<lparr>cache = False, result = [(''site_a'', 1 / 10), (''site_c'', 3 / 10)]\<rparr>)"
    using example_roundtrip by simp
  have between: "[usage_key ''key1'' 28333333 \<mapsto> example_counter 1,
        str_int 0 \<mapsto> \<lparr>content = ranked_text, expires_at = None\<rparr>]
      = service_all example_jwt example_json example_model (Some ''topsecret'') example_rows
          [usage_key ''key1'' 28333333 \<mapsto> example_counter 1,
           str_int 0 \<mapsto> \<lparr>content = ranked_text, expires_at = None\<rparr>] []"
    by simp
  from repeated_call_is_served_from_cache[OF wf example_counters_do_not_decode
      example_first_call rt between example_admission_second, of "PyInt 0"]
  show ?thesis
    by (simp add: wf example_first_call)
qed

text \<open>
  C3: a failed ranking creates a cache entry. The id 7 fails validation, and the call
  stores the text of the one-pair list with the message under the key \<open>7\<close>, which was
  missing before.
\<close>

theorem failed_ranking_is_cached:
  "validate_input example_model (PyInt 7) = Inl (ValueError (msg_id_not_found ''7''))
   \<and> redis_get 1700000000 Map.empty ''7'' = None
   \<and> fst (similarity_service example_jwt example_json example_model (Some ''topsecret'')
           example_rows 1700000000 Map.empty (example_request ''good'' (PyInt 7)))
       = Inr \<lparr>cache = False, result = [(msg_id_not_found ''7'', - 1)]\<rparr>
   \<and> redis_get 1700000000
        (snd (similarity_service example_jwt example_json example_model (Some ''topsecret'')
               example_rows 1700000000 Map.empty (example_request ''good'' (PyInt 7)))) ''7''
       = Some sentinel_text"
proof -
  have s7: "str_int 7 = ''7''" by (simp add: str_int_def str_nat.simps digit_char_def)
  have v: "validate_input example_model (PyInt 7) = Inl (ValueError (msg_id_not_found ''7''))"
    by (simp add: validate_input_def example_model_simps s7)
  show ?thesis
    by (simp add: v example_failed_call redis_get_def redis_live_def s7)
qed


end
